theory Spec2Isabelle
  imports Complex_Main "HOL-Library.Char_ord" "HOL-Library.List_Lexorder"
begin

section \<open>Data model: cells, series and dataframes\<close>

text \<open>
  The analysed program (whitebox/base.py, whitebox/WhiteBox.py) works on pandas
  dataframes. A cell is a number, a label or the missing marker; floating point
  numbers are modelled as reals and \<open>NaN\<close> is the one missing value of pandas.
  A series is a list of cells together with its dtype (categorical or not), and a
  dataframe is the ordered list of its named columns. All tables of the program carry
  the default range index (\<open>reset_index(drop=True)\<close> in the constructor and in
  \<open>_continuous_slice\<close>), so a row is a position in the cell lists.
\<close>

datatype cell = is_Num: Num real | is_Str: Str string | is_NaN: NaN

datatype error =
    KeyError string
  | ValueError
  | TypeError
  | IndexError
  | RuntimeError
  | AssertionError
  | FileNotFoundError
  | AttributeError
  | ConfiguredError string

record series =
  categorical :: bool
  cells :: "cell list"

type_synonym frame = "(string \<times> series) list"

definition float_series :: "cell list \<Rightarrow> series" where
  "float_series cs = \<lparr>categorical = False, cells = cs\<rparr>"

definition columns :: "frame \<Rightarrow> string list" where
  "columns df = map fst df"

text \<open>\<open>df[name]\<close>: the column, or KeyError.\<close>

definition getitem :: "frame \<Rightarrow> string \<Rightarrow> error + series" where
  "getitem df name = (case map_of df name of None \<Rightarrow> Inl (KeyError name) | Some s \<Rightarrow> Inr s)"

text \<open>\<open>df[name] = s\<close>: overwrite the column in place when it exists, else append it.\<close>

fun setitem :: "frame \<Rightarrow> string \<Rightarrow> series \<Rightarrow> frame" where
  "setitem [] name s = [(name, s)]"
| "setitem ((n, c) # df) name s =
     (if n = name then (n, s) # df else (n, c) # setitem df name s)"

text \<open>\<open>df.shape[0]\<close>: the number of rows (of the first column; 0 for no column).\<close>

definition nrows :: "frame \<Rightarrow> nat" where
  "nrows df = (case df of [] \<Rightarrow> 0 | (n, s) # r \<Rightarrow> length (cells s))"

text \<open>Selecting the rows at the given positions, for every column.\<close>

definition take_rows :: "nat list \<Rightarrow> frame \<Rightarrow> frame" where
  "take_rows idx df = map (\<lambda>(n, s). (n, s\<lparr>cells := map (\<lambda>i. cells s ! i) idx\<rparr>)) df"

section \<open>The percentile binner (base.py, \<open>_continuous_slice\<close>)\<close>

text \<open>
  \<open>np.digitize(x, bins, right=True)\<close> for increasing bins is
  \<open>np.searchsorted(bins, x, side='left')\<close>: the number of leading bins strictly
  below \<open>x\<close>. A missing value sorts after every number.
\<close>

fun digitize_right :: "real \<Rightarrow> real list \<Rightarrow> nat" where
  "digitize_right x [] = 0"
| "digitize_right x (b # bs) = (if x \<le> b then 0 else Suc (digitize_right x bs))"

fun digitize_cell :: "real list \<Rightarrow> cell \<Rightarrow> error + cell" where
  "digitize_cell bins (Num x) = Inr (Num (real (digitize_right x bins)))"
| "digitize_cell bins NaN = Inr (Num (real (length bins)))"
| "digitize_cell bins (Str s) = Inl TypeError"

text \<open>Running a fallible function over a list, stopping at the first error.\<close>

fun mapM :: "('a \<Rightarrow> error + 'b) \<Rightarrow> 'a list \<Rightarrow> error + 'b list" where
  "mapM f [] = Inr []"
| "mapM f (x # xs) =
     (case f x of Inl e \<Rightarrow> Inl e
      | Inr y \<Rightarrow> (case mapM f xs of Inl e \<Rightarrow> Inl e | Inr ys \<Rightarrow> Inr (y # ys)))"

text \<open>
  The column \<open>fixed_bins\<close> of \<open>_continuous_slice\<close>. The helper
  \<open>percentiles.create_percentile_vecs\<close> is not part of the sources at hand; it is
  the parameter \<open>cpv\<close>. \<open>sorted(list(set(...)))\<close> is \<open>sort (remdups ...)\<close>.
\<close>

definition group_percentiles :: "(cell list \<Rightarrow> real list) \<Rightarrow> cell list \<Rightarrow> real list" where
  "group_percentiles cpv vals = sort (remdups (cpv vals))"

definition fixed_bins :: "(cell list \<Rightarrow> real list) \<Rightarrow> frame \<Rightarrow> string \<Rightarrow> error + cell list" where
  "fixed_bins cpv grp col =
     (case getitem grp col of
        Inl e \<Rightarrow> Inl e
      | Inr s \<Rightarrow>
          if nrows grp > 100
          then mapM (digitize_cell (group_percentiles cpv (cells s))) (cells s)
          else Inr (cells s))"

text \<open>
  \<open>k\<close> is the index of the right-closed interval of \<open>x\<close> among the cut-points:
  \<open>bins[k-1] < x \<le> bins[k]\<close>, with no lower edge for \<open>k = 0\<close> and no upper edge
  for \<open>k = len(bins)\<close>.
\<close>

definition right_closed_interval :: "real list \<Rightarrow> nat \<Rightarrow> real \<Rightarrow> bool" where
  "right_closed_interval bins k x \<longleftrightarrow>
     k \<le> length bins \<and> (0 < k \<longrightarrow> bins ! (k - 1) < x) \<and> (k < length bins \<longrightarrow> x \<le> bins ! k)"

section \<open>pandas reductions used by the bucket reducer\<close>

text \<open>
  The reductions skip missing values (\<open>skipna=True\<close>) and give \<open>NaN\<close> when nothing
  is left; a label in a numeric reduction is a \<open>TypeError\<close>.
\<close>

fun num_of :: "cell \<Rightarrow> real option" where
  "num_of (Num x) = Some x"
| "num_of c = None"

fun str_of :: "cell \<Rightarrow> string option" where
  "str_of (Str l) = Some l"
| "str_of c = None"

definition numbers :: "cell list \<Rightarrow> real list" where
  "numbers cs = List.map_filter num_of cs"

definition labels :: "cell list \<Rightarrow> string list" where
  "labels cs = List.map_filter str_of cs"

definition has_label :: "cell list \<Rightarrow> bool" where
  "has_label cs = list_ex is_Str cs"

text \<open>
  \<open>Series.max()\<close>: the greatest number of a numeric column, missing values
  skipped; the greatest label of a column of labels; a \<open>TypeError\<close> for an
  (unordered) categorical column and for labels mixed with numbers or missing values.
\<close>

definition series_max :: "series \<Rightarrow> error + cell" where
  "series_max s =
     (if categorical s then Inl TypeError
      else if has_label (cells s) then
        (if list_all is_Str (cells s) then
           (case labels (cells s) of [] \<Rightarrow> Inr NaN | l # ls \<Rightarrow> Inr (Str (fold max ls l)))
         else Inl TypeError)
      else case numbers (cells s) of [] \<Rightarrow> Inr NaN | x # xs \<Rightarrow> Inr (Num (fold max xs x)))"

text \<open>\<open>Series.mean()\<close>, which is also what \<open>np.mean\<close> does on a series.\<close>

definition series_mean :: "cell list \<Rightarrow> error + cell" where
  "series_mean cs =
     (if has_label cs then Inl TypeError
      else case numbers cs of [] \<Rightarrow> Inr NaN
           | x # xs \<Rightarrow> Inr (Num (sum_list (x # xs) / real (length (x # xs)))))"

text \<open>\<open>Series.std()\<close>: the sample standard deviation (\<open>ddof=1\<close>).\<close>

definition series_std :: "cell list \<Rightarrow> error + cell" where
  "series_std cs =
     (if has_label cs then Inl TypeError
      else let xs = numbers cs; n = length xs in
        if n < 2 then Inr NaN
        else let m = sum_list xs / real n in
          Inr (Num (sqrt (sum_list (map (\<lambda>x. (x - m)\<^sup>2) xs) / real (n - 1)))))"

text \<open>
  \<open>np.median\<close> on a series works on the array of its values and does not skip
  the missing ones: the result is \<open>NaN\<close> as soon as one value is missing.
\<close>

definition median_of :: "real list \<Rightarrow> real" where
  "median_of xs =
     (let ys = sort xs; n = length ys in
      if even n then (ys ! (n div 2 - 1) + ys ! (n div 2)) / 2 else ys ! (n div 2))"

definition np_median :: "cell list \<Rightarrow> error + cell" where
  "np_median cs =
     (if has_label cs then Inl TypeError
      else if list_ex is_NaN cs \<or> cs = [] then Inr NaN
      else Inr (Num (median_of (numbers cs))))"

text \<open>
  The distinct non-missing values of a column in ascending order (numbers by value,
  labels lexicographically): the order of the groups of \<open>groupby\<close> and of the values
  of \<open>Series.mode()\<close>.
\<close>

definition sorted_keys :: "cell list \<Rightarrow> cell list" where
  "sorted_keys cs = map Num (sort (remdups (numbers cs))) @ map Str (sort (remdups (labels cs)))"

text \<open>\<open>Series.mode()\<close>: every most frequent non-missing value, ascending.\<close>

definition series_mode :: "cell list \<Rightarrow> cell list" where
  "series_mode cs =
     (let ks = sorted_keys cs; m = fold max (map (count_list cs) ks) 0
      in filter (\<lambda>k. count_list cs k = m) ks)"

text \<open>Arithmetic on cells: \<open>NaN\<close> propagates, a label is a \<open>TypeError\<close>.\<close>

fun cell_binop :: "(real \<Rightarrow> real \<Rightarrow> real) \<Rightarrow> cell \<Rightarrow> cell \<Rightarrow> error + cell" where
  "cell_binop f (Str a) c = Inl TypeError"
| "cell_binop f c (Str b) = Inl TypeError"
| "cell_binop f (Num a) (Num b) = Inr (Num (f a b))"
| "cell_binop f a b = Inr NaN"

section \<open>Rows of a result table\<close>

text \<open>
  A result table is built row by row; a row maps column names to cells, in the order
  of the columns. \<open>dict_set\<close> is the assignment \<open>d[k] = v\<close> of a Python dict
  (a repeated key of a dict literal keeps its first position and its last value).
\<close>

type_synonym row = "(string \<times> cell) list"

fun dict_set :: "('k \<times> 'v) list \<Rightarrow> 'k \<Rightarrow> 'v \<Rightarrow> ('k \<times> 'v) list" where
  "dict_set [] k v = [(k, v)]"
| "dict_set ((k', v') # d) k v = (if k' = k then (k', v) # d else (k', v') # dict_set d k v)"

definition dict_of :: "('k \<times> 'v) list \<Rightarrow> ('k \<times> 'v) list" where
  "dict_of kvs = fold (\<lambda>(k, v) d. dict_set d k v) kvs []"

datatype vartype = Continuous | Categorical

section \<open>The bucket reducer in error mode (WhiteBox.py, \<open>WhiteBoxError._transform_function\<close>)\<close>

text \<open>
  \<open>errors[errors > 0]\<close> and \<open>errors[errors < 0]\<close>, put side by side by
  \<open>concat(axis=1)\<close> and joined to the bucket: a row keeps its error in \<open>errPos\<close>
  when it is positive, in \<open>errNeg\<close> when it is negative, and has \<open>NaN\<close> elsewhere.
\<close>

fun positive :: "cell \<Rightarrow> bool" where
  "positive (Num x) = (x > 0)"
| "positive c = False"

fun negative :: "cell \<Rightarrow> bool" where
  "negative (Num x) = (x < 0)"
| "negative c = False"

definition errPos_column :: "cell list \<Rightarrow> cell list" where
  "errPos_column es = map (\<lambda>e. if positive e then e else NaN) es"

definition errNeg_column :: "cell list \<Rightarrow> cell list" where
  "errNeg_column es = map (\<lambda>e. if negative e then e else NaN) es"

text \<open>
  The configured aggregate function is a parameter \<open>agg\<close> from a column to a cell
  (or an error). Applied to a whole dataframe (the categorical branch) a NumPy
  reduction such as \<open>np.mean\<close> reduces every numeric column on its own; the
  categorical columns and the columns of labels are left out of the result.
\<close>

definition aggregate_frame :: "(cell list \<Rightarrow> error + cell) \<Rightarrow> frame \<Rightarrow> error + row" where
  "aggregate_frame agg df =
     mapM (\<lambda>(n, s). case agg (cells s) of Inl e \<Rightarrow> Inl e | Inr v \<Rightarrow> Inr (n, v))
       (filter (\<lambda>(n, s). \<not> categorical s \<and> \<not> has_label (cells s)) df)"

definition error_toreturn :: "frame \<Rightarrow> cell list \<Rightarrow> frame" where
  "error_toreturn grp es =
     filter (\<lambda>(n, s). n \<noteq> ''errors'') grp
       @ [(''errPos'', float_series (errPos_column es)), (''errNeg'', float_series (errNeg_column es))]"

definition error_transform_function ::
  "(cell list \<Rightarrow> error + cell) \<Rightarrow> frame \<Rightarrow> string \<Rightarrow> string \<Rightarrow> vartype \<Rightarrow> error + row list" where
  "error_transform_function agg grp groupby col vt =
     (case getitem grp ''errors'' of
        Inl e \<Rightarrow> Inl AssertionError
      | Inr es \<Rightarrow>
          if has_label (cells es) then Inl TypeError
          else let toreturn = error_toreturn grp (cells es) in
            case vt of
              Categorical \<Rightarrow>
                (case aggregate_frame agg toreturn of Inl e \<Rightarrow> Inl e | Inr r \<Rightarrow> Inr [r])
            | Continuous \<Rightarrow>
                (case getitem toreturn col of Inl e \<Rightarrow> Inl e | Inr c \<Rightarrow>
                 case series_max c of Inl e \<Rightarrow> Inl e | Inr cmax \<Rightarrow>
                 case getitem toreturn groupby of Inl e \<Rightarrow> Inl e | Inr g \<Rightarrow>
                 case getitem toreturn ''predictedYSmooth'' of Inl e \<Rightarrow> Inl e | Inr p \<Rightarrow>
                 case series_mean (cells p) of Inl e \<Rightarrow> Inl e | Inr pmean \<Rightarrow>
                 case agg (errPos_column (cells es)) of Inl e \<Rightarrow> Inl e | Inr ep \<Rightarrow>
                 case agg (errNeg_column (cells es)) of Inl e \<Rightarrow> Inl e | Inr en \<Rightarrow>
                   Inr (map (\<lambda>gv. dict_of [(col, cmax), (groupby, gv), (''predictedYSmooth'', pmean),
                                              (''errPos'', ep), (''errNeg'', en)])
                          (series_mode (cells g)))))"

text \<open>The numeric policy of the specification: an aggregate ignores missing values.\<close>

definition skips_missing :: "(cell list \<Rightarrow> error + cell) \<Rightarrow> bool" where
  "skips_missing agg \<longleftrightarrow> (\<forall>cs. agg cs = agg (filter (\<lambda>c. c \<noteq> NaN) cs))"

section \<open>Grouping (\<open>DataFrame.groupby(...).apply\<close>)\<close>

text \<open>
  \<open>df[mask]\<close> keeps the rows where the mask holds. \<open>groupby\<close> walks the distinct
  non-missing key values in ascending order (rows with a missing key belong to no
  group) and hands each group, a dataframe with all the columns, to the function;
  the results are concatenated. With two keys the observed pairs form the groups.
\<close>

definition rows_where :: "(nat \<Rightarrow> bool) \<Rightarrow> frame \<Rightarrow> frame" where
  "rows_where p df = take_rows (filter p [0..<nrows df]) df"

definition groupby_frames :: "frame \<Rightarrow> string \<Rightarrow> error + (cell \<times> frame) list" where
  "groupby_frames df key =
     (case getitem df key of
        Inl e \<Rightarrow> Inl e
      | Inr k \<Rightarrow> Inr (map (\<lambda>v. (v, rows_where (\<lambda>i. cells k ! i = v) df)) (sorted_keys (cells k))))"

definition groupby2_frames :: "frame \<Rightarrow> string \<Rightarrow> string \<Rightarrow> error + ((cell \<times> cell) \<times> frame) list" where
  "groupby2_frames df key1 key2 =
     (case getitem df key1 of
        Inl e \<Rightarrow> Inl e
      | Inr k1 \<Rightarrow>
        (case getitem df key2 of
           Inl e \<Rightarrow> Inl e
         | Inr k2 \<Rightarrow>
             Inr (filter (\<lambda>(k, g). 0 < nrows g)
                   (concat (map (\<lambda>v1. map (\<lambda>v2.
                       ((v1, v2), rows_where (\<lambda>i. cells k1 ! i = v1 \<and> cells k2 ! i = v2) df))
                     (sorted_keys (cells k2))) (sorted_keys (cells k1)))))))"

definition apply_groups :: "(frame \<Rightarrow> error + row list) \<Rightarrow> ('k \<times> frame) list \<Rightarrow> error + row list" where
  "apply_groups f gs = (case mapM (\<lambda>(k, g). f g) gs of Inl e \<Rightarrow> Inl e | Inr rs \<Rightarrow> Inr (concat rs))"

text \<open>
  \<open>df[names]\<close>: the named columns in the given order, or KeyError. pandas accepts a
  repeated label here, but the resulting table cannot be grouped by that label nor
  can the doubled column be reduced or binned, so every driver fails on it; the model
  lets the selection itself fail.
\<close>

definition select_cols :: "string list \<Rightarrow> frame \<Rightarrow> error + frame" where
  "select_cols names df =
     (case mapM (\<lambda>n. case getitem df n of Inl e \<Rightarrow> Inl e | Inr s \<Rightarrow> Inr (n, s)) names of
        Inl e \<Rightarrow> Inl e
      | Inr sub \<Rightarrow> if distinct names then Inr sub else Inl ValueError)"

text \<open>\<open>df.loc[:, ~df.columns.isin(names)]\<close>.\<close>

definition drop_cols :: "string list \<Rightarrow> frame \<Rightarrow> frame" where
  "drop_cols names df = filter (\<lambda>(n, s). n \<notin> set names) df"

section \<open>The bucket reducer in sensitivity mode (\<open>WhiteBoxSensitivity._transform_function\<close>)\<close>

text \<open>
  A dataframe built from a dict of two series and a scalar has as many rows as the
  longer series; the shorter one is filled with \<open>NaN\<close>.
\<close>

fun zip_pad :: "cell list \<Rightarrow> cell list \<Rightarrow> (cell \<times> cell) list" where
  "zip_pad [] [] = []"
| "zip_pad (x # xs) [] = (x, NaN) # zip_pad xs []"
| "zip_pad [] (y # ys) = (NaN, y) # zip_pad [] ys"
| "zip_pad (x # xs) (y # ys) = (x, y) # zip_pad xs ys"

definition sens_transform_function ::
  "(cell list \<Rightarrow> error + cell) \<Rightarrow> frame \<Rightarrow> string \<Rightarrow> string \<Rightarrow> vartype \<Rightarrow> error + row list" where
  "sens_transform_function agg grp groupby col vt =
     (case getitem grp ''errors'' of
        Inl e \<Rightarrow> Inl AssertionError
      | Inr es \<Rightarrow>
        (case getitem grp col of Inl e \<Rightarrow> Inl e | Inr c \<Rightarrow>
         case (case vt of Continuous \<Rightarrow> series_max c | Categorical \<Rightarrow> Inr NaN) of
           Inl e \<Rightarrow> Inl e | Inr cmax \<Rightarrow>
         case getitem grp groupby of Inl e \<Rightarrow> Inl e | Inr g \<Rightarrow>
         case getitem grp ''diff'' of Inl e \<Rightarrow> Inl e | Inr d \<Rightarrow>
         case agg (cells d) of Inl e \<Rightarrow> Inl e | Inr a \<Rightarrow>
           (case vt of
              Continuous \<Rightarrow>
                Inr (map (\<lambda>gv. dict_of [(col, cmax), (groupby, gv), (''predictedYSmooth'', a)])
                       (series_mode (cells g)))
            | Categorical \<Rightarrow>
                Inr (map (\<lambda>(cv, gv). dict_of [(col, cv), (groupby, gv), (''predictedYSmooth'', a)])
                       (zip_pad (series_mode (cells c)) (series_mode (cells g)))))))"

section \<open>The instance and its collaborators\<close>

text \<open>
  The two source files come from different revisions of the repository: WhiteBox.py
  names the group variable \<open>groupby\<close>, passes \<open>vartype\<close> to \<open>_continuous_slice\<close>,
  reads the display-label mapping \<open>self.featuredict\<close> and calls \<open>utils.to_json\<close>,
  while base.py names the same parameter \<open>groupby_var\<close>, fixes \<open>vartype\<close> of the
  slices at \<open>'Continuous'\<close> and takes \<open>keepfeaturelist\<close>. The embedding identifies
  the two names of the group variable and keeps \<open>featuredict\<close> as a field of the
  instance. The fitted model is its \<open>predict\<close> function.

  Code of the repository that is not among the sources (\<open>utils\<close>, \<open>check_utils\<close>,
  \<open>percentiles\<close>, \<open>formatting\<close>, \<open>fmt_model_outputs\<close>), the regular-expression
  search of \<open>DataFrame.filter\<close> and writing the report file are parameters, gathered
  in one record; each may fail. \<open>'j\<close> is the type of the JSON values they build.
\<close>

type_synonym modelobj = "frame \<Rightarrow> error + cell list"

datatype wb_class = WhiteBoxError | WhiteBoxSensitivity

record json_args =
  table :: "row list"
  jvartype :: vartype
  html_type :: string
  incremental_val :: "cell option"

record 'j collaborators =
  verbose2log :: "(int option \<times> nat) list"
  supported_agg_errors :: "string list"
  supported_out_types :: "string list"
  check_cat_df :: "frame \<Rightarrow> frame \<Rightarrow> error + frame"
  check_keepfeaturelist :: "string list option \<Rightarrow> frame \<Rightarrow> error + string list"
  subset_input :: "frame \<Rightarrow> string list \<Rightarrow> string \<Rightarrow> error + frame"
  check_modelobj :: "modelobj \<Rightarrow> error + modelobj"
  check_verbose :: "int \<Rightarrow> error option"
  is_regression :: "modelobj \<Rightarrow> error + (modelobj \<times> string)"
  check_agg_func :: "(cell list \<Rightarrow> error + cell) \<Rightarrow> error + (cell list \<Rightarrow> error + cell)"
  population_percentiles :: "frame \<Rightarrow> string list \<Rightarrow> error + ('j \<times> 'j)"
  autoformat_types_fn :: "frame \<Rightarrow> error + frame"
  create_percentile_vecs :: "cell list \<Rightarrow> real list"
  re_search :: "string \<Rightarrow> string \<Rightarrow> bool"
  to_json :: "json_args \<Rightarrow> error + 'j"
  fmt_sklearn_preds :: "modelobj \<Rightarrow> modelobj \<Rightarrow> frame \<Rightarrow> frame \<Rightarrow> string \<Rightarrow> string \<Rightarrow> error + (frame \<times> frame)"
  create_accuracy :: "string \<Rightarrow> frame \<Rightarrow> string \<Rightarrow> string \<Rightarrow> error + row list"
  flatten_json :: "'j list \<Rightarrow> error + 'j"
  accuracy_to_json :: "row list \<Rightarrow> string \<Rightarrow> error + 'j"
  write_html :: "'j list \<Rightarrow> string \<Rightarrow> wb_class \<Rightarrow> string \<Rightarrow> error option"

record 'j whitebox =
  called_class :: wb_class
  modelobj :: modelobj
  predict_engine :: modelobj
  model_type :: string
  model_df :: frame
  cat_df :: frame
  keepfeaturelist :: "string list"
  featuredict :: "(string \<times> string) list"
  ydepend :: string
  groupbyvars :: "string list"
  aggregate_func :: "cell list \<Rightarrow> error + cell"
  error_type :: string
  std_num :: int
  percentiles :: 'j
  group_percentiles_out :: 'j
  agg_df :: "(cell \<times> row) list"
  raw_df :: "(cell \<times> row) list"
  outputs :: "'j list option"

section \<open>\<open>_continuous_slice\<close> (base.py)\<close>

text \<open>
  The slice gets the column \<open>fixed_bins\<close>, is grouped by it, and every bucket is
  reduced by the \<open>_transform_function\<close> of the calling class.
\<close>

definition transform_function ::
  "wb_class \<Rightarrow> (cell list \<Rightarrow> error + cell) \<Rightarrow> frame \<Rightarrow> string \<Rightarrow> string \<Rightarrow> vartype \<Rightarrow> error + row list" where
  "transform_function cls agg grp groupby col vt =
     (case cls of
        WhiteBoxError \<Rightarrow> error_transform_function agg grp groupby col vt
      | WhiteBoxSensitivity \<Rightarrow> sens_transform_function agg grp groupby col vt)"

definition continuous_slice ::
  "(cell list \<Rightarrow> real list) \<Rightarrow> wb_class \<Rightarrow> (cell list \<Rightarrow> error + cell) \<Rightarrow> frame \<Rightarrow> string \<Rightarrow> string
     \<Rightarrow> error + row list" where
  "continuous_slice cpv cls agg grp col groupby =
     (case getitem grp col of
        Inl e \<Rightarrow> Inl e
      | Inr s \<Rightarrow>
        (case fixed_bins cpv grp col of
           Inl e \<Rightarrow> Inl e
         | Inr fb \<Rightarrow>
           (case groupby_frames (setitem grp ''fixed_bins'' (s\<lparr>cells := fb\<rparr>)) ''fixed_bins'' of
              Inl e \<Rightarrow> Inl e
            | Inr gs \<Rightarrow> apply_groups (\<lambda>g. transform_function cls agg g groupby col Continuous) gs)))"

section \<open>The drivers (\<open>_var_check\<close> of WhiteBox.py)\<close>

text \<open>\<open>rename(columns=...)\<close>, \<open>df[name] = scalar\<close> and \<open>replace(np.nan, 'null')\<close> on a
  result table.\<close>

definition rename_columns :: "(string \<times> string) list \<Rightarrow> row list \<Rightarrow> row list" where
  "rename_columns d rs =
     map (map (\<lambda>(n, c). (case map_of d n of None \<Rightarrow> n | Some n' \<Rightarrow> n', c))) rs"

definition set_column :: "string \<Rightarrow> cell \<Rightarrow> row list \<Rightarrow> row list" where
  "set_column n v rs = map (\<lambda>r. dict_set r n v) rs"

definition replace_nan :: "row list \<Rightarrow> row list" where
  "replace_nan rs = map (map (\<lambda>(n, c). (n, if c = NaN then Str ''null'' else c))) rs"


text \<open>
  The error driver. In the categorical branch the reducer returns a series for every
  observed (group value, category level) pair, and \<open>apply\<close> lays the result out
  over every pair of a group value and a category level of the table: a pair without
  rows gets a record whose aggregates are all missing. \<open>reset_index\<close> then turns
  the two keys into the leading columns of each record; it fails when a column of
  that name is already there.
\<close>

definition level_pairs :: "frame \<Rightarrow> string \<Rightarrow> string \<Rightarrow> error + (cell \<times> cell) list" where
  "level_pairs df key1 key2 =
     (case getitem df key1 of
        Inl e \<Rightarrow> Inl e
      | Inr k1 \<Rightarrow>
        (case getitem df key2 of
           Inl e \<Rightarrow> Inl e
         | Inr k2 \<Rightarrow>
             Inr (concat (map (\<lambda>v1. map (\<lambda>v2. (v1, v2)) (sorted_keys (cells k2)))
                            (sorted_keys (cells k1))))))"

definition error_categorical_rows ::
  "string \<Rightarrow> string \<Rightarrow> (cell \<times> cell) list \<Rightarrow> ((cell \<times> cell) \<times> row) list \<Rightarrow> row list" where
  "error_categorical_rows groupby col pairs observed =
     (let names = (case observed of [] \<Rightarrow> [] | (k, r) # rest \<Rightarrow> map fst r) in
      map (\<lambda>(gv, cv). (groupby, gv) # (col, cv) #
             (case map_of observed (gv, cv) of
                Some r \<Rightarrow> r
              | None \<Rightarrow> map (\<lambda>n. (n, NaN)) names)) pairs)"

definition error_records :: "'j collaborators \<Rightarrow> 'j whitebox \<Rightarrow> string \<Rightarrow> string \<Rightarrow> error + json_args" where
  "error_records env self col groupby =
     (case getitem (cat_df self) col of
        Inl e \<Rightarrow> Inl e
      | Inr c \<Rightarrow>
        if categorical c then
          (case select_cols [col, ''errors'', ''predictedYSmooth'', groupby] (cat_df self) of
             Inl e \<Rightarrow> Inl e
           | Inr sub \<Rightarrow>
             (case groupby2_frames sub groupby col of
                Inl e \<Rightarrow> Inl e
              | Inr gs \<Rightarrow>
                (case mapM (\<lambda>(k, g).
                        case error_transform_function (aggregate_func self) g groupby col Categorical of
                          Inl e \<Rightarrow> Inl e
                        | Inr rs \<Rightarrow> Inr (k, concat rs)) gs of
                   Inl e \<Rightarrow> Inl e
                 | Inr observed \<Rightarrow>
                     if list_ex (\<lambda>(k, r). groupby \<in> fst ` set r \<or> col \<in> fst ` set r) observed
                     then Inl ValueError
                     else
                       (case level_pairs sub groupby col of
                          Inl e \<Rightarrow> Inl e
                        | Inr pairs \<Rightarrow>
                            Inr \<lparr>table = replace_nan
                                   (set_column ''groupByVarName'' (Str groupby)
                                     (rename_columns (featuredict self)
                                       (rename_columns [(groupby, ''groupByValue'')]
                                         (error_categorical_rows groupby col pairs observed)))),
                                 jvartype = Categorical, html_type = ''error'',
                                 incremental_val = None\<rparr>))))
        else
          (case select_cols [col, ''errors'', ''predictedYSmooth'', groupby] (cat_df self) of
             Inl e \<Rightarrow> Inl e
           | Inr sub \<Rightarrow>
             (case groupby_frames sub groupby of
                Inl e \<Rightarrow> Inl e
              | Inr gs \<Rightarrow>
                (case apply_groups (\<lambda>g. continuous_slice (create_percentile_vecs env) WhiteBoxError
                                          (aggregate_func self) g col groupby) gs of
                   Inl e \<Rightarrow> Inl e
                 | Inr rs \<Rightarrow>
                     Inr \<lparr>table = replace_nan (rename_columns (featuredict self) rs),
                          jvartype = Continuous, html_type = ''error'', incremental_val = None\<rparr>))))"

definition error_var_check :: "'j collaborators \<Rightarrow> 'j whitebox \<Rightarrow> string \<Rightarrow> string \<Rightarrow> error + 'j" where
  "error_var_check env self col groupby =
     (case error_records env self col groupby of Inl e \<Rightarrow> Inl e | Inr a \<Rightarrow> to_json env a)"

section \<open>The perturbation engine and the sensitivity driver\<close>

text \<open>\<open>l in x\<close> for two Python strings: \<open>l\<close> occurs in \<open>x\<close>.\<close>

fun starts_with :: "string \<Rightarrow> string \<Rightarrow> bool" where
  "starts_with x [] = True"
| "starts_with [] (c # l) = False"
| "starts_with (d # x) (c # l) = (d = c \<and> starts_with x l)"

fun str_in :: "string \<Rightarrow> string \<Rightarrow> bool" where
  "str_in l [] = (l = [])"
| "str_in l (d # x) = (starts_with (d # x) l \<or> str_in l x)"

text \<open>\<open>df.loc[:, names] = v\<close>: every named column becomes the constant \<open>v\<close>.\<close>

definition assign_const :: "string list \<Rightarrow> cell \<Rightarrow> frame \<Rightarrow> frame" where
  "assign_const names v df =
     map (\<lambda>(n, s). if n \<in> set names then (n, float_series (replicate (length (cells s)) v)) else (n, s)) df"

text \<open>
  Categorical column: the mode is read from the categorical view, the dummy columns
  of the copy whose name holds the mode become 1, the other dummy columns 0.
\<close>

definition perturb_categorical :: "'j collaborators \<Rightarrow> frame \<Rightarrow> string \<Rightarrow> series \<Rightarrow> error + (frame \<times> cell)" where
  "perturb_categorical env copydf col c =
     (let all_type_cols = filter (re_search env (col @ ''_*'')) (columns copydf) in
      case series_mode (cells c) of
        [] \<Rightarrow> Inl IndexError
      | mode_val # rest \<Rightarrow>
        (case mode_val of
           Str l \<Rightarrow>
             let mode_col = filter (str_in l) all_type_cols;
                 copydf1 = assign_const mode_col (Num 1) copydf;
                 non_mode_col = filter (\<lambda>x. \<not> str_in l x) all_type_cols
             in Inr (assign_const non_mode_col (Num 0) copydf1, mode_val)
         | _ \<Rightarrow> if all_type_cols = [] then Inr (copydf, mode_val) else Inl TypeError))"

text \<open>
  Continuous column: the standard deviation of the column of the copy, times
  \<open>std_num\<close>, is added to every row of that column.
\<close>

definition perturb_continuous :: "frame \<Rightarrow> string \<Rightarrow> int \<Rightarrow> error + (frame \<times> cell)" where
  "perturb_continuous copydf col n =
     (case getitem copydf col of Inl e \<Rightarrow> Inl e | Inr s \<Rightarrow>
      case series_std (cells s) of Inl e \<Rightarrow> Inl e | Inr sd \<Rightarrow>
      case cell_binop (*) sd (Num (real_of_int n)) of Inl e \<Rightarrow> Inl e | Inr inc \<Rightarrow>
      case mapM (\<lambda>c. cell_binop (+) c inc) (cells s) of Inl e \<Rightarrow> Inl e | Inr shifted \<Rightarrow>
        Inr (setitem copydf col (s\<lparr>cells := shifted\<rparr>), inc))"

text \<open>
  Re-scoring: the model predicts on the copy without the dependent variable and the
  original predictions; the new predictions become a column of the copy (which must
  have one value per row); the delta is new prediction minus original prediction.
\<close>

definition rescore :: "modelobj \<Rightarrow> string \<Rightarrow> frame \<Rightarrow> error + cell list" where
  "rescore predict yd copydf =
     (case predict (drop_cols [yd, ''predictedYSmooth''] copydf) of Inl e \<Rightarrow> Inl e | Inr preds \<Rightarrow>
      if length preds \<noteq> nrows copydf then Inl ValueError
      else let copydf' = setitem copydf ''new_predictions'' (float_series preds) in
        case getitem copydf' ''new_predictions'' of Inl e \<Rightarrow> Inl e | Inr np \<Rightarrow>
        case getitem copydf' ''predictedYSmooth'' of Inl e \<Rightarrow> Inl e | Inr pys \<Rightarrow>
          mapM (\<lambda>(a, b). cell_binop (-) a b) (zip (cells np) (cells pys)))"

text \<open>\<open>self.cat_df['diff'] = ...\<close>: the series is aligned to the rows of \<open>cat_df\<close>.\<close>

definition align :: "nat \<Rightarrow> cell list \<Rightarrow> cell list" where
  "align n cs = take n cs @ replicate (n - length cs) NaN"

definition assign_diff :: "'j whitebox \<Rightarrow> cell list \<Rightarrow> 'j whitebox" where
  "assign_diff self d =
     self\<lparr>cat_df := setitem (cat_df self) ''diff'' (float_series (align (nrows (cat_df self)) d))\<rparr>"

definition col_indices :: "string \<Rightarrow> string \<Rightarrow> string list" where
  "col_indices col groupby = [col, ''errors'', ''predictedYSmooth'', groupby, ''diff'']"

text \<open>The buckets of the categorical branch: the rows that differ from the mode,
  grouped by group variable and category level.\<close>

definition sens_categorical_groups ::
  "frame \<Rightarrow> string \<Rightarrow> string \<Rightarrow> cell \<Rightarrow> error + ((cell \<times> cell) \<times> frame) list" where
  "sens_categorical_groups df col groupby mode_val =
     (case getitem df col of Inl e \<Rightarrow> Inl e | Inr c \<Rightarrow>
      case select_cols (col_indices col groupby) (rows_where (\<lambda>i. cells c ! i \<noteq> mode_val) df) of
        Inl e \<Rightarrow> Inl e
      | Inr sub \<Rightarrow> groupby2_frames sub groupby col)"

definition sens_categorical_records ::
  "'j whitebox \<Rightarrow> string \<Rightarrow> string \<Rightarrow> cell \<Rightarrow> error + json_args" where
  "sens_categorical_records self col groupby mode_val =
     (case sens_categorical_groups (cat_df self) col groupby mode_val of Inl e \<Rightarrow> Inl e | Inr gs \<Rightarrow>
      case apply_groups (\<lambda>g. sens_transform_function (aggregate_func self) g groupby col Categorical) gs of
        Inl e \<Rightarrow> Inl e
      | Inr rs \<Rightarrow>
          Inr \<lparr>table = replace_nan
                 (set_column ''groupByVarName'' (Str groupby)
                   (rename_columns (featuredict self)
                     (rename_columns [(groupby, ''groupByValue'')] rs))),
               jvartype = Categorical, html_type = ''sensitivity'',
               incremental_val = Some mode_val\<rparr>)"

definition sens_continuous_records ::
  "'j collaborators \<Rightarrow> 'j whitebox \<Rightarrow> string \<Rightarrow> string \<Rightarrow> cell \<Rightarrow> error + json_args" where
  "sens_continuous_records env self col groupby inc =
     (case select_cols (col_indices col groupby) (cat_df self) of Inl e \<Rightarrow> Inl e | Inr sub \<Rightarrow>
      case groupby_frames sub groupby of Inl e \<Rightarrow> Inl e | Inr gs \<Rightarrow>
      case apply_groups (\<lambda>g. continuous_slice (create_percentile_vecs env) WhiteBoxSensitivity
                                (aggregate_func self) g col groupby) gs of
        Inl e \<Rightarrow> Inl e
      | Inr rs \<Rightarrow>
          Inr \<lparr>table = replace_nan (rename_columns (featuredict self) rs),
               jvartype = Continuous, html_type = ''sensitivity'', incremental_val = Some inc\<rparr>)"

text \<open>
  The sensitivity driver. It returns the instance as the call leaves it (the
  assignment to \<open>self.cat_df['diff']\<close> stays when a later step fails) together with
  the outcome of the call.
\<close>

definition sens_var_check ::
  "'j collaborators \<Rightarrow> 'j whitebox \<Rightarrow> string \<Rightarrow> string \<Rightarrow> 'j whitebox \<times> (error + 'j)" where
  "sens_var_check env self col groupby =
     (let copydf = model_df self in
      case getitem (cat_df self) col of
        Inl e \<Rightarrow> (self, Inl e)
      | Inr c \<Rightarrow>
        if categorical c then
          (case perturb_categorical env copydf col c of
             Inl e \<Rightarrow> (self, Inl e)
           | Inr (copydf', mode_val) \<Rightarrow>
             (case rescore (modelobj self) (ydepend self) copydf' of
                Inl e \<Rightarrow> (self, Inl e)
              | Inr d \<Rightarrow>
                  let self' = assign_diff self d in
                  (self', case sens_categorical_records self' col groupby mode_val of
                            Inl e \<Rightarrow> Inl e | Inr a \<Rightarrow> to_json env a)))
        else
          (case perturb_continuous copydf col (std_num self) of
             Inl e \<Rightarrow> (self, Inl e)
           | Inr (copydf', inc) \<Rightarrow>
             (case rescore (modelobj self) (ydepend self) copydf' of
                Inl e \<Rightarrow> (self, Inl e)
              | Inr d \<Rightarrow>
                  let self' = assign_diff self d in
                  (self', case sens_continuous_records env self' col groupby inc of
                            Inl e \<Rightarrow> Inl e | Inr a \<Rightarrow> to_json env a))))"

section \<open>Construction (base.py \<open>WhiteBoxBase.__init__\<close>, WhiteBox.py \<open>__init__\<close>)\<close>

text \<open>
  The statements of the constructor in their order; the first failure ends it.
  \<open>raw_df\<close> and \<open>agg_df\<close> are rows with their index label; \<open>outputs\<close> is absent
  (\<open>None\<close>) until \<open>run\<close> assigns it.
\<close>

definition truthy :: "int option \<Rightarrow> bool" where
  "truthy v = (case v of None \<Rightarrow> False | Some n \<Rightarrow> n \<noteq> 0)"

definition sum_bind :: "error + 'a \<Rightarrow> ('a \<Rightarrow> error + 'b) \<Rightarrow> error + 'b" where
  "sum_bind m f = (case m of Inl e \<Rightarrow> Inl e | Inr x \<Rightarrow> f x)"

definition raise_if :: "error option \<Rightarrow> error + unit" where
  "raise_if r = (case r of Some e \<Rightarrow> Inl e | None \<Rightarrow> Inr ())"

definition base_init ::
  "'j collaborators \<Rightarrow> wb_class \<Rightarrow> modelobj \<Rightarrow> frame \<Rightarrow> string \<Rightarrow> frame option \<Rightarrow> string list option
     \<Rightarrow> string list option \<Rightarrow> (cell list \<Rightarrow> error + cell) \<Rightarrow> string \<Rightarrow> bool \<Rightarrow> int option
     \<Rightarrow> error + 'j whitebox" where
  "base_init env cls mobj mdf yd cdf keep gvars agg etype autoformat verbose =
     (if map_of (verbose2log env) verbose = None then Inl (KeyError ''verbose'')
      else if etype \<notin> set (supported_agg_errors env) then Inl (ConfiguredError ''error_type'')
      else if gvars = None \<or> gvars = Some [] then Inl (ConfiguredError ''groupbyvars'')
      else if cdf = None then Inl AttributeError
      else
        sum_bind (check_cat_df env (the cdf) mdf) (\<lambda>cdf1.
        sum_bind (check_keepfeaturelist env keep cdf1) (\<lambda>keep1.
        sum_bind (subset_input env cdf1 keep1 yd) (\<lambda>cdf2.
        sum_bind (check_modelobj env mobj) (\<lambda>mobj1.
        sum_bind (raise_if (if truthy verbose then check_verbose env (the verbose) else None)) (\<lambda>u.
        sum_bind (is_regression env mobj) (\<lambda>(engine, mtype).
        sum_bind (check_agg_func env agg) (\<lambda>agg1.
        sum_bind (population_percentiles env cdf2 (the gvars)) (\<lambda>(pct, gpct).
        sum_bind (if autoformat then autoformat_types_fn env cdf2 else Inr cdf2) (\<lambda>cdf3.
          Inr \<lparr>called_class = cls, modelobj = mobj1, predict_engine = engine, model_type = mtype,
               model_df = mdf, cat_df = cdf3, keepfeaturelist = keep1, featuredict = [],
               ydepend = yd, groupbyvars = the gvars, aggregate_func = agg1, error_type = etype,
               std_num = 1, percentiles = pct, group_percentiles_out = gpct,
               agg_df = [], raw_df = [], outputs = None\<rparr>))))))))))"

text \<open>
  The two classes of WhiteBox.py. They do not pass \<open>error_type\<close>,
  \<open>keepfeaturelist\<close> or \<open>autoformat_types\<close>, so the defaults of the base
  class apply. \<open>std_num\<close> is read in sensitivity mode only.
\<close>

definition whitebox_error_init ::
  "'j collaborators \<Rightarrow> modelobj \<Rightarrow> frame \<Rightarrow> string \<Rightarrow> frame option \<Rightarrow> (string \<times> string) list
     \<Rightarrow> string list option \<Rightarrow> (cell list \<Rightarrow> error + cell) \<Rightarrow> int option \<Rightarrow> error + 'j whitebox" where
  "whitebox_error_init env mobj mdf yd cdf fdict gvars agg verbose =
     (case base_init env WhiteBoxError mobj mdf yd cdf None gvars agg ''RMSE'' False verbose of
        Inl e \<Rightarrow> Inl e
      | Inr self \<Rightarrow> Inr (self\<lparr>featuredict := fdict\<rparr>))"

definition whitebox_sensitivity_init ::
  "'j collaborators \<Rightarrow> modelobj \<Rightarrow> frame \<Rightarrow> string \<Rightarrow> frame option \<Rightarrow> (string \<times> string) list
     \<Rightarrow> string list option \<Rightarrow> (cell list \<Rightarrow> error + cell) \<Rightarrow> int option \<Rightarrow> int \<Rightarrow> error + 'j whitebox" where
  "whitebox_sensitivity_init env mobj mdf yd cdf fdict gvars agg verbose n =
     (if n \<notin> set [- 3, - 2, - 1, 1, 2, 3] then Inl ValueError
      else case base_init env WhiteBoxSensitivity mobj mdf yd cdf None gvars agg ''RMSE'' False verbose of
        Inl e \<Rightarrow> Inl e
      | Inr self \<Rightarrow> Inr (self\<lparr>featuredict := fdict, std_num := n\<rparr>))"

section \<open>The accumulators and their getters (base.py)\<close>

text \<open>The rows of a dataframe, each with its position as index label.\<close>

definition frame_rows :: "frame \<Rightarrow> (cell \<times> row) list" where
  "frame_rows df =
     map (\<lambda>i. (Num (real i), map (\<lambda>(n, s). (n, cells s ! i)) df)) [0..<nrows df]"

definition fmt_raw_df :: "'j whitebox \<Rightarrow> string \<Rightarrow> string \<Rightarrow> frame \<Rightarrow> 'j whitebox" where
  "fmt_raw_df self col groupby cur_group =
     (let renamed = map (\<lambda>(n, s). (if n = col then ''col_value''
                                    else if n = groupby then ''groupby_level'' else n, s)) cur_group;
          piece = map (\<lambda>(i, r). (i, filter (\<lambda>(n, c). n \<noteq> ''fixed_bins'')
                                        (dict_set (dict_set r ''groupByVar'' (Str groupby))
                                           ''col_name'' (Str col))))
                    (frame_rows renamed)
      in self\<lparr>raw_df := raw_df self @ piece\<rparr>)"

definition fmt_agg_df :: "'j whitebox \<Rightarrow> string \<Rightarrow> (cell \<times> row) list \<Rightarrow> 'j whitebox" where
  "fmt_agg_df self col agg_errors =
     (let debug_df = map (\<lambda>(i, r). (i, dict_set (map (\<lambda>(n, c). (if n = col then ''col_value'' else n, c)) r)
                                            ''col_name'' (Str col))) agg_errors
      in self\<lparr>agg_df := agg_df self @ debug_df\<rparr>)"

text \<open>\<open>reset_index()\<close>: the index label becomes the leading column \<open>index\<close>.\<close>

definition reset_index :: "(cell \<times> row) list \<Rightarrow> row list" where
  "reset_index rs = map (\<lambda>(i, r). (''index'', i) # r) rs"

definition get_raw_df :: "'j whitebox \<Rightarrow> error + row list" where
  "get_raw_df self =
     (case outputs self of None \<Rightarrow> Inl RuntimeError | Some out \<Rightarrow> Inr (reset_index (raw_df self)))"

definition get_agg_df :: "'j whitebox \<Rightarrow> error + row list" where
  "get_agg_df self =
     (case outputs self of None \<Rightarrow> Inl RuntimeError | Some out \<Rightarrow> Inr (reset_index (agg_df self)))"

section \<open>The run orchestrator (base.py \<open>run\<close>)\<close>

text \<open>
  \<open>self._var_check\<close> is the driver of the calling class. \<open>run\<close> passes the group
  variable under the keyword \<open>groupby_var\<close> of its own revision, the drivers of
  WhiteBox.py take it as \<open>groupby\<close>; the embedding lets the call reach the driver.
  A call returns the instance as it leaves it and its outcome.
\<close>

definition var_check ::
  "'j collaborators \<Rightarrow> 'j whitebox \<Rightarrow> string \<Rightarrow> string \<Rightarrow> 'j whitebox \<times> (error + 'j)" where
  "var_check env self col groupby =
     (case called_class self of
        WhiteBoxError \<Rightarrow> (self, error_var_check env self col groupby)
      | WhiteBoxSensitivity \<Rightarrow> sens_var_check env self col groupby)"

text \<open>The inner loop over the group variables for one column.\<close>

fun run_groupbyvars ::
  "'j collaborators \<Rightarrow> 'j whitebox \<Rightarrow> string \<Rightarrow> string list \<Rightarrow> 'j list \<Rightarrow> row list
     \<Rightarrow> 'j whitebox \<times> (error + 'j list \<times> row list)" where
  "run_groupbyvars env self col [] colhold insights = (self, Inr (colhold, insights))"
| "run_groupbyvars env self col (g # gs) colhold insights =
     (if col \<noteq> g then
        (case var_check env self col g of
           (self', Inl e) \<Rightarrow> (self', Inl e)
         | (self', Inr json_out) \<Rightarrow> run_groupbyvars env self' col gs (colhold @ [json_out]) insights)
      else
        (case create_accuracy env (model_type self) (cat_df self) (error_type self) g of
           Inl e \<Rightarrow> (self, Inl e)
         | Inr acc \<Rightarrow> run_groupbyvars env self col gs colhold (insights @ acc)))"

text \<open>The outer loop over the columns.\<close>

fun run_cols ::
  "'j collaborators \<Rightarrow> 'j whitebox \<Rightarrow> string list \<Rightarrow> 'j list \<Rightarrow> row list
     \<Rightarrow> 'j whitebox \<times> (error + 'j list \<times> row list)" where
  "run_cols env self [] placeholder insights = (self, Inr (placeholder, insights))"
| "run_cols env self (col # cols) placeholder insights =
     (case run_groupbyvars env self col (groupbyvars self) [] insights of
        (self', Inl e) \<Rightarrow> (self', Inl e)
      | (self', Inr (colhold, insights')) \<Rightarrow>
          if 0 < length colhold then
            (case flatten_json env colhold of
               Inl e \<Rightarrow> (self', Inl e)
             | Inr fj \<Rightarrow> run_cols env self' cols (placeholder @ [fj]) insights')
          else run_cols env self' cols placeholder insights')"

definition save :: "'j collaborators \<Rightarrow> 'j whitebox \<Rightarrow> string \<Rightarrow> error option" where
  "save env self fpath =
     (case outputs self of
        None \<Rightarrow> Some AttributeError
      | Some out \<Rightarrow> write_html env out (ydepend self) (called_class self) fpath)"

definition run ::
  "'j collaborators \<Rightarrow> 'j whitebox \<Rightarrow> string \<Rightarrow> string \<Rightarrow> 'j whitebox \<times> (error + row list option)" where
  "run env self output_type output_path =
     (if output_type \<notin> set (supported_out_types env) then (self, Inl ValueError)
      else case fmt_sklearn_preds env (predict_engine self) (modelobj self) (model_df self)
                  (cat_df self) (ydepend self) (model_type self) of
        Inl e \<Rightarrow> (self, Inl e)
      | Inr (cdf, mdf) \<Rightarrow>
          let self1 = self\<lparr>cat_df := cdf, model_df := mdf\<rparr>;
              to_iter_cols = filter (\<lambda>c. c \<notin> set [''errors'', ''predictedYSmooth'', ydepend self1])
                               (columns (cat_df self1))
          in case run_cols env self1 to_iter_cols [] [] of
               (self2, Inl e) \<Rightarrow> (self2, Inl e)
             | (self2, Inr (placeholder, insights)) \<Rightarrow>
               (case accuracy_to_json env insights (error_type self2) of
                  Inl e \<Rightarrow> (self2, Inl e)
                | Inr insights_json \<Rightarrow>
                    let self3 = self2\<lparr>outputs :=
                          Some (placeholder @ [insights_json, percentiles self2, group_percentiles_out self2])\<rparr>
                    in if output_type = ''html'' then
                         (case save env self3 output_path of
                            Some e \<Rightarrow> (self3, Inl e)
                          | None \<Rightarrow> (self3, Inr None))
                       else if output_type = ''raw_data'' then
                         (self3, case get_raw_df self3 of Inl e \<Rightarrow> Inl e | Inr df \<Rightarrow> Inr (Some df))
                       else if output_type = ''agg_data'' then
                         (self3, case get_agg_df self3 of Inl e \<Rightarrow> Inl e | Inr df \<Rightarrow> Inr (Some df))
                       else (self3, Inr None)))"

section \<open>A small worked example\<close>

text \<open>
  Three observations with a continuous feature \<open>x\<close>, a categorical feature
  \<open>Type\<close> (dummy columns \<open>Type_a\<close>, \<open>Type_b\<close> in the model-input table), a second
  categorical column \<open>Grp\<close> and the dependent variable \<open>y\<close>; the model predicts
  \<open>x + Type_b\<close>. The collaborators are the simplest ones that fit: the checks accept
  their input, the tables arrive scored, the JSON of a result table is the arguments
  of the conversion, the pattern \<open>col_*\<close> is found in the names that contain \<open>col\<close>,
  and the report cannot be written to the empty path.
\<close>

definition demo_model :: modelobj where
  "demo_model df =
     sum_bind (getitem df ''x'') (\<lambda>x.
     sum_bind (getitem df ''Type_b'') (\<lambda>b.
       mapM (\<lambda>(u, v). cell_binop (+) u v) (zip (cells x) (cells b))))"

definition demo_env :: "json_args collaborators" where
  "demo_env =
     \<lparr>verbose2log = [(None, 0), (Some 0, 10), (Some 1, 30), (Some 2, 40)],
      supported_agg_errors = [''MSE'', ''MAE'', ''RMSE'', ''MED'', ''MEAN''],
      supported_out_types = [''html'', ''raw_data'', ''agg_data''],
      check_cat_df = (\<lambda>c m. Inr c),
      check_keepfeaturelist = (\<lambda>k c. Inr (case k of None \<Rightarrow> columns c | Some l \<Rightarrow> l)),
      subset_input = (\<lambda>c k y. Inr c),
      check_modelobj = Inr,
      check_verbose = (\<lambda>v. None),
      is_regression = (\<lambda>m. Inr (m, ''regression'')),
      check_agg_func = Inr,
      population_percentiles = (\<lambda>c g.
         Inr (\<lparr>table = [], jvartype = Continuous, html_type = ''percentile'', incremental_val = None\<rparr>,
              \<lparr>table = [], jvartype = Continuous, html_type = ''percentileGroup'', incremental_val = None\<rparr>)),
      autoformat_types_fn = Inr,
      create_percentile_vecs = numbers,
      re_search = (\<lambda>p n. str_in (take (length p - 2) p) n),
      to_json = Inr,
      fmt_sklearn_preds = (\<lambda>e m mdf cdf y t. Inr (cdf, mdf)),
      create_accuracy = (\<lambda>t c e g. Inr []),
      flatten_json = (\<lambda>js. case js of [] \<Rightarrow> Inl IndexError | j # r \<Rightarrow> Inr j),
      accuracy_to_json = (\<lambda>rs e.
         Inr \<lparr>table = rs, jvartype = Continuous, html_type = ''accuracy'', incremental_val = None\<rparr>),
      write_html = (\<lambda>out y c fpath. if fpath = [] then Some FileNotFoundError else None)\<rparr>"

definition demo_model_df :: frame where
  "demo_model_df =
     [(''x'', float_series [Num 1, Num 3, Num 5]),
      (''Type_a'', float_series [Num 1, Num 1, Num 0]),
      (''Type_b'', float_series [Num 0, Num 0, Num 1]),
      (''y'', float_series [Num 1, Num 2, Num 3]),
      (''predictedYSmooth'', float_series [Num 1, Num 3, Num 6])]"

definition demo_cat_df :: frame where
  "demo_cat_df =
     [(''x'', float_series [Num 1, Num 3, Num 5]),
      (''Type'', \<lparr>categorical = True, cells = [Str ''a'', Str ''a'', Str ''b'']\<rparr>),
      (''Grp'', \<lparr>categorical = True, cells = [Str ''u'', Str ''v'', Str ''v'']\<rparr>),
      (''y'', float_series [Num 1, Num 2, Num 3]),
      (''errors'', float_series [Num 0, Num (- 1), Num (- 3)]),
      (''predictedYSmooth'', float_series [Num 1, Num 3, Num 6])]"

definition demo_wb :: "wb_class \<Rightarrow> json_args whitebox" where
  "demo_wb cls =
     \<lparr>called_class = cls, modelobj = demo_model, predict_engine = demo_model,
      model_type = ''regression'', model_df = demo_model_df, cat_df = demo_cat_df,
      keepfeaturelist = columns demo_cat_df, featuredict = [(''x'', ''X'')],
      ydepend = ''y'', groupbyvars = [''Grp''], aggregate_func = series_mean,
      error_type = ''RMSE'', std_num = 1,
      percentiles = \<lparr>table = [], jvartype = Continuous, html_type = ''percentile'', incremental_val = None\<rparr>,
      group_percentiles_out =
        \<lparr>table = [], jvartype = Continuous, html_type = ''percentileGroup'', incremental_val = None\<rparr>,
      agg_df = [], raw_df = [], outputs = None\<rparr>"

text \<open>
  The same example with one observation and with a table whose only analysis column
  is the group variable (\<open>run\<close> then computes the accuracy of the groups and calls
  no driver).
\<close>

definition demo_one_row :: "json_args whitebox" where
  "demo_one_row =
     (demo_wb WhiteBoxSensitivity)
       \<lparr>model_df :=
          [(''x'', float_series [Num 1]), (''Type_b'', float_series [Num 0]),
           (''y'', float_series [Num 1]), (''predictedYSmooth'', float_series [Num 1])],
        cat_df :=
          [(''x'', float_series [Num 1]),
           (''Grp'', \<lparr>categorical = True, cells = [Str ''u'']\<rparr>),
           (''y'', float_series [Num 1]), (''errors'', float_series [Num 0]),
           (''predictedYSmooth'', float_series [Num 1])]\<rparr>"

definition demo_group_only :: "wb_class \<Rightarrow> json_args whitebox" where
  "demo_group_only cls =
     (demo_wb cls)
       \<lparr>cat_df :=
          [(''Grp'', \<lparr>categorical = True, cells = [Str ''u'', Str ''v'', Str ''v'']\<rparr>),
           (''y'', float_series [Num 1, Num 2, Num 3]),
           (''errors'', float_series [Num 0, Num (- 1), Num (- 3)]),
           (''predictedYSmooth'', float_series [Num 1, Num 3, Num 6])]\<rparr>"

section \<open>Properties of the percentile binner\<close>

lemma digitize_right_le: "digitize_right x bs \<le> length bs"
  by (induction bs) auto

lemma digitize_right_below:
  "sorted bs \<Longrightarrow> i < digitize_right x bs \<Longrightarrow> bs ! i < x"
proof (induction bs arbitrary: i)
  case Nil
  then show ?case by simp
next
  case (Cons b bs)
  show ?case
  proof (cases i)
    case 0
    with Cons.prems show ?thesis by (simp split: if_splits)
  next
    case (Suc j)
    with Cons show ?thesis by (simp split: if_splits)
  qed
qed

lemma digitize_right_upper:
  "digitize_right x bs < length bs \<Longrightarrow> x \<le> bs ! digitize_right x bs"
  by (induction bs) auto

lemma digitize_right_mono:
  "sorted bs \<Longrightarrow> x \<le> y \<Longrightarrow> digitize_right x bs \<le> digitize_right y bs"
  by (induction bs) auto

lemma mapM_length: "mapM f xs = Inr ys \<Longrightarrow> length ys = length xs"
  by (induction xs arbitrary: ys) (auto split: sum.splits)

lemma mapM_nth:
  "mapM f xs = Inr ys \<Longrightarrow> i < length xs \<Longrightarrow> f (xs ! i) = Inr (ys ! i)"
proof (induction xs arbitrary: ys i)
  case Nil
  then show ?case by simp
next
  case (Cons x xs)
  then show ?case by (cases i) (auto split: sum.splits)
qed

lemma mapM_total:
  "(\<And>x. x \<in> set xs \<Longrightarrow> \<exists>y. f x = Inr y) \<Longrightarrow> \<exists>ys. mapM f xs = Inr ys"
proof (induction xs)
  case Nil
  then show ?case by simp
next
  case (Cons x xs)
  then obtain y where "f x = Inr y" by auto
  moreover from Cons obtain ys where "mapM f xs = Inr ys" by auto
  ultimately show ?case by simp
qed

lemma digitize_right_interval:
  "sorted bs \<Longrightarrow> right_closed_interval bs (digitize_right x bs) x"
  unfolding right_closed_interval_def
  using digitize_right_le [of x bs] digitize_right_below [of bs "digitize_right x bs - 1" x]
    digitize_right_upper [of x bs]
  by auto

lemma right_closed_interval_unique:
  assumes "sorted bs" "right_closed_interval bs k x" "right_closed_interval bs k' x"
  shows "k' = k"
proof (rule ccontr)
  assume "k' \<noteq> k"
  then consider "k < k'" | "k' < k" by linarith
  then show False
  proof cases
    case 1
    with assms have "x \<le> bs ! k" "bs ! (k' - 1) < x" "k \<le> k' - 1" "k' - 1 < length bs"
      by (auto simp: right_closed_interval_def)
    moreover from this assms(1) have "bs ! k \<le> bs ! (k' - 1)"
      by (simp add: sorted_nth_mono)
    ultimately show False by linarith
  next
    case 2
    with assms have "x \<le> bs ! k'" "bs ! (k - 1) < x" "k' \<le> k - 1" "k - 1 < length bs"
      by (auto simp: right_closed_interval_def)
    moreover from this assms(1) have "bs ! k' \<le> bs ! (k - 1)"
      by (simp add: sorted_nth_mono)
    ultimately show False by linarith
  qed
qed

lemma group_percentiles_sorted: "sorted (group_percentiles cpv vals)"
  by (simp add: group_percentiles_def)

lemma group_percentiles_distinct: "distinct (group_percentiles cpv vals)"
  by (simp add: group_percentiles_def)

lemma group_percentiles_set: "set (group_percentiles cpv vals) = set (cpv vals)"
  by (simp add: group_percentiles_def)

lemma digitize_cell_total: "\<not> is_Str c \<Longrightarrow> \<exists>y. digitize_cell bins c = Inr y"
  by (cases c) auto

text \<open>
  Claim C5. For a group of more than 100 rows whose column holds numbers (or missing
  values), the binner returns one bucket id per row; the cut-points it uses are the
  percentile cut-points of the group's values, ascending and free of duplicates; the
  id of a row with value \<open>x\<close> is the index of
  the one right-closed interval of the cut-points that contains \<open>x\<close> (a value on a
  cut-point has that cut-point as the upper edge of its bucket); and the ids are
  non-decreasing in the order of the values.
\<close>

theorem percentile_binner_right_closed:
  assumes col: "getitem grp col = Inr s"
    and big: "100 < nrows grp"
    and num: "\<forall>c\<in>set (cells s). \<not> is_Str c"
  shows "\<exists>ids. fixed_bins cpv grp col = Inr ids \<and> length ids = length (cells s)
     \<and> set (group_percentiles cpv (cells s)) = set (cpv (cells s))
     \<and> sorted (group_percentiles cpv (cells s)) \<and> distinct (group_percentiles cpv (cells s))
     \<and> (\<forall>i<length (cells s). \<forall>x. cells s ! i = Num x \<longrightarrow>
          (\<exists>k. ids ! i = Num (real k)
             \<and> right_closed_interval (group_percentiles cpv (cells s)) k x
             \<and> (\<forall>k'. right_closed_interval (group_percentiles cpv (cells s)) k' x \<longrightarrow> k' = k)))
     \<and> (\<forall>i<length (cells s). \<forall>j<length (cells s). \<forall>x y.
          cells s ! i = Num x \<and> cells s ! j = Num y \<and> x \<le> y \<longrightarrow>
          (\<exists>k l. ids ! i = Num (real k) \<and> ids ! j = Num (real l) \<and> k \<le> l))"
proof -
  let ?bins = "group_percentiles cpv (cells s)"
  have srt: "sorted ?bins" by (rule group_percentiles_sorted)
  from num have "\<And>c. c \<in> set (cells s) \<Longrightarrow> \<exists>y. digitize_cell ?bins c = Inr y"
    by (simp add: digitize_cell_total)
  then obtain ids where ids: "mapM (digitize_cell ?bins) (cells s) = Inr ids"
    using mapM_total by blast
  have fb: "fixed_bins cpv grp col = Inr ids"
    using col big ids by (simp add: fixed_bins_def)
  have len: "length ids = length (cells s)"
    using ids by (rule mapM_length)
  have at: "ids ! i = Num (real (digitize_right x ?bins))"
    if "i < length (cells s)" "cells s ! i = Num x" for i x
    using mapM_nth [OF ids that(1)] that(2) by simp
  have interval: "\<exists>k. ids ! i = Num (real k) \<and> right_closed_interval ?bins k x
      \<and> (\<forall>k'. right_closed_interval ?bins k' x \<longrightarrow> k' = k)"
    if "i < length (cells s)" "cells s ! i = Num x" for i x
  proof (intro exI conjI allI impI)
    show "ids ! i = Num (real (digitize_right x ?bins))" using that by (rule at)
    show "right_closed_interval ?bins (digitize_right x ?bins) x"
      using srt by (rule digitize_right_interval)
    show "k' = digitize_right x ?bins" if "right_closed_interval ?bins k' x" for k'
      using srt digitize_right_interval [OF srt] that by (rule right_closed_interval_unique)
  qed
  have mono: "\<exists>k l. ids ! i = Num (real k) \<and> ids ! j = Num (real l) \<and> k \<le> l"
    if "i < length (cells s)" "j < length (cells s)"
      "cells s ! i = Num x" "cells s ! j = Num y" "x \<le> y" for i j x y
    using at [OF that(1,3)] at [OF that(2,4)] digitize_right_mono [OF srt that(5)] by blast
  show ?thesis
    using fb len srt group_percentiles_distinct [of cpv "cells s"]
      group_percentiles_set [of cpv "cells s"] interval mono by blast
qed


theorem percentile_binner_right_closed_witness:
  "100 < nrows [(''x'', float_series (replicate 50 (Num 1) @ replicate 51 (Num 5)))]
   \<and> (\<exists>ids. fixed_bins (\<lambda>vs. [5, 1, 5, 3])
          [(''x'', float_series (replicate 50 (Num 1) @ replicate 51 (Num 5)))] ''x'' = Inr ids
        \<and> length ids = 101 \<and> ids ! 0 = Num 0 \<and> ids ! 100 = Num 2)
   \<and> group_percentiles (\<lambda>vs. [5, 1, 5, 3])
        (cells (float_series (replicate 50 (Num 1) @ replicate 51 (Num 5)))) = [1, 3, 5]"
proof -
  let ?s = "float_series (replicate 50 (Num 1) @ replicate 51 (Num 5))"
  let ?g = "[(''x'', ?s)]"
  let ?cpv = "\<lambda>vs::cell list. [5, 1, 5, 3::real]"
  let ?b = "group_percentiles ?cpv (cells ?s)"
  have col: "getitem ?g ''x'' = Inr ?s" by (simp add: getitem_def)
  have big: "100 < nrows ?g" by (simp add: nrows_def float_series_def)
  have num: "\<forall>c\<in>set (cells ?s). \<not> is_Str c" by (auto simp: float_series_def)
  have bins: "?b = [1, 3, 5]"
    by (simp add: group_percentiles_def)
  have len: "length (cells ?s) = 101" by (simp add: float_series_def)
  have c0: "cells ?s ! 0 = Num 1" by (simp add: float_series_def nth_append)
  have c100: "cells ?s ! 100 = Num 5" by (simp add: float_series_def nth_append)
  from percentile_binner_right_closed [OF col big num, of ?cpv]
  obtain ids where fb: "fixed_bins ?cpv ?g ''x'' = Inr ids" and l: "length ids = length (cells ?s)"
    and iv: "\<forall>i<length (cells ?s). \<forall>x. cells ?s ! i = Num x \<longrightarrow>
          (\<exists>k. ids ! i = Num (real k) \<and> right_closed_interval ?b k x
             \<and> (\<forall>k'. right_closed_interval ?b k' x \<longrightarrow> k' = k))"
    by blast
  have r0: "right_closed_interval ?b 0 1" unfolding bins by (simp add: right_closed_interval_def)
  have r2: "right_closed_interval ?b 2 5" unfolding bins by (simp add: right_closed_interval_def)
  have "0 < length (cells ?s)" unfolding len by simp
  with iv c0 obtain k where k: "ids ! 0 = Num (real k)"
    "\<forall>k'. right_closed_interval ?b k' 1 \<longrightarrow> k' = k" by blast
  from k(2) r0 have "k = 0" by blast
  with k have i0: "ids ! 0 = Num 0" by simp
  have "100 < length (cells ?s)" unfolding len by simp
  with iv c100 obtain m where m: "ids ! 100 = Num (real m)"
    "\<forall>k'. right_closed_interval ?b k' 5 \<longrightarrow> k' = m" by blast
  from m(2) r2 have "m = 2" by blast
  with m have i100: "ids ! 100 = Num 2" by simp
  from l len have l': "length ids = 101" by simp
  show ?thesis using big fb l' i0 i100 bins by blast
qed

section \<open>Properties of the bucket reducer in error mode\<close>

lemma errPos_column_filter: "filter (\<lambda>c. c \<noteq> NaN) (errPos_column es) = filter positive es"
proof (induction es)
  case Nil
  then show ?case by (simp add: errPos_column_def)
next
  case (Cons e es)
  then show ?case by (cases e) (auto simp: errPos_column_def)
qed

lemma errNeg_column_filter: "filter (\<lambda>c. c \<noteq> NaN) (errNeg_column es) = filter negative es"
proof (induction es)
  case Nil
  then show ?case by (simp add: errNeg_column_def)
next
  case (Cons e es)
  then show ?case by (cases e) (auto simp: errNeg_column_def)
qed

lemma mapM_member:
  "mapM f xs = Inr ys \<Longrightarrow> x \<in> set xs \<Longrightarrow> \<exists>y\<in>set ys. f x = Inr y"
  by (induction xs arbitrary: ys) (auto split: sum.splits)

lemma map_of_dict_set: "map_of (dict_set d k v) = (map_of d)(k \<mapsto> v)"
  by (induction d) (auto simp: fun_eq_iff)

lemma numbers_skip_NaN: "numbers (filter (\<lambda>c. c \<noteq> NaN) cs) = numbers cs"
proof (induction cs)
  case Nil
  then show ?case by simp
next
  case (Cons c cs)
  then show ?case by (cases c) (simp_all add: numbers_def List.map_filter_simps)
qed

lemma has_label_skip_NaN: "has_label (filter (\<lambda>c. c \<noteq> NaN) cs) = has_label cs"
  by (induction cs) (auto simp: has_label_def)

lemma skips_missing_series_mean: "skips_missing series_mean"
  by (simp add: skips_missing_def series_mean_def numbers_skip_NaN has_label_skip_NaN)

lemma dict_row_errPos:
  "(''errPos'', ep) \<in> set (dict_of [(col, a), (groupby, b), (''predictedYSmooth'', c), (''errPos'', ep), (''errNeg'', en)])"
  by (rule map_of_SomeD) (simp add: dict_of_def map_of_dict_set)

lemma dict_row_errNeg:
  "(''errNeg'', en) \<in> set (dict_of [(col, a), (groupby, b), (''predictedYSmooth'', c), (''errPos'', ep), (''errNeg'', en)])"
  by (rule map_of_SomeD) (simp add: dict_of_def map_of_dict_set)

lemma no_label_errPos: "\<not> has_label (errPos_column es)"
proof (induction es)
  case Nil
  then show ?case by (simp add: has_label_def errPos_column_def)
next
  case (Cons e es)
  then show ?case by (cases e) (auto simp: has_label_def errPos_column_def)
qed

lemma no_label_errNeg: "\<not> has_label (errNeg_column es)"
proof (induction es)
  case Nil
  then show ?case by (simp add: has_label_def errNeg_column_def)
next
  case (Cons e es)
  then show ?case by (cases e) (auto simp: has_label_def errNeg_column_def)
qed

lemma errPos_column_nth:
  "i < length es \<Longrightarrow> errPos_column es ! i = (if positive (es ! i) then es ! i else NaN)"
  by (simp add: errPos_column_def)

lemma errNeg_column_nth:
  "i < length es \<Longrightarrow> errNeg_column es ! i = (if negative (es ! i) then es ! i else NaN)"
  by (simp add: errNeg_column_def)

lemma error_reducer_rows:
  assumes errs: "getitem grp ''errors'' = Inr es"
    and run: "error_transform_function agg grp groupby col vt = Inr rows"
  shows "\<exists>ep en. agg (errPos_column (cells es)) = Inr ep
      \<and> agg (errNeg_column (cells es)) = Inr en
      \<and> (\<forall>r\<in>set rows. (''errPos'', ep) \<in> set r \<and> (''errNeg'', en) \<in> set r)"
proof (cases vt)
  case Continuous
  with run errs show ?thesis
    using dict_row_errPos dict_row_errNeg
    by (auto simp: error_transform_function_def Let_def split: sum.splits if_splits)
next
  case Categorical
  with run errs obtain r where r: "aggregate_frame agg (error_toreturn grp (cells es)) = Inr r"
    and rows: "rows = [r]"
    by (auto simp: error_transform_function_def Let_def split: sum.splits if_splits)
  let ?f = "\<lambda>(n, s). case agg (cells s) of Inl e \<Rightarrow> Inl e | Inr v \<Rightarrow> Inr (n, v)"
  let ?cols = "filter (\<lambda>(n, s). \<not> categorical s \<and> \<not> has_label (cells s))
                 (error_toreturn grp (cells es))"
  from r have m: "mapM ?f ?cols = Inr r" by (simp add: aggregate_frame_def)
  have "(''errPos'', float_series (errPos_column (cells es))) \<in> set ?cols"
    by (simp add: error_toreturn_def float_series_def no_label_errPos)
  from mapM_member [OF m this] obtain ep where
    ep: "agg (errPos_column (cells es)) = Inr ep" "(''errPos'', ep) \<in> set r"
    by (auto simp: float_series_def split: sum.splits)
  have "(''errNeg'', float_series (errNeg_column (cells es))) \<in> set ?cols"
    by (simp add: error_toreturn_def float_series_def no_label_errNeg)
  from mapM_member [OF m this] obtain en where
    en: "agg (errNeg_column (cells es)) = Inr en" "(''errNeg'', en) \<in> set r"
    by (auto simp: float_series_def split: sum.splits)
  from ep en rows show ?thesis by auto
qed

text \<open>
  Claim C1, as the code has it. In error mode the reducer returns rows whose
  \<open>errPos\<close> is the aggregate function applied to the bucket's error column in which
  every entry that is not strictly positive is replaced by the missing value, and
  whose \<open>errNeg\<close> is the aggregate function applied to the error column in which
  every entry that is not strictly negative is replaced by the missing value; a row
  with error 0 is missing in both. When the aggregate function ignores missing values
  these are the aggregates of exactly the strictly positive and of exactly the
  strictly negative errors, and a row with error 0 contributes to neither.
\<close>

theorem error_reducer_nan_padded_split:
  assumes errs: "getitem grp ''errors'' = Inr es"
    and run: "error_transform_function agg grp groupby col vt = Inr rows"
  shows "\<exists>ep en. agg (errPos_column (cells es)) = Inr ep
      \<and> agg (errNeg_column (cells es)) = Inr en
      \<and> (\<forall>r\<in>set rows. (''errPos'', ep) \<in> set r \<and> (''errNeg'', en) \<in> set r)
      \<and> length (errPos_column (cells es)) = length (cells es)
      \<and> length (errNeg_column (cells es)) = length (cells es)
      \<and> (\<forall>i<length (cells es).
            errPos_column (cells es) ! i = (if positive (cells es ! i) then cells es ! i else NaN)
          \<and> errNeg_column (cells es) ! i = (if negative (cells es ! i) then cells es ! i else NaN)
          \<and> (cells es ! i = Num 0 \<longrightarrow>
                errPos_column (cells es) ! i = NaN \<and> errNeg_column (cells es) ! i = NaN))
      \<and> (skips_missing agg \<longrightarrow>
            agg (filter positive (cells es)) = Inr ep \<and> agg (filter negative (cells es)) = Inr en)"
proof -
  from error_reducer_rows [OF errs run] obtain ep en where
    ep: "agg (errPos_column (cells es)) = Inr ep" and en: "agg (errNeg_column (cells es)) = Inr en"
    and rows: "\<forall>r\<in>set rows. (''errPos'', ep) \<in> set r \<and> (''errNeg'', en) \<in> set r"
    by blast
  have len: "length (errPos_column (cells es)) = length (cells es)"
    "length (errNeg_column (cells es)) = length (cells es)"
    by (simp_all add: errPos_column_def errNeg_column_def)
  have at: "\<forall>i<length (cells es).
            errPos_column (cells es) ! i = (if positive (cells es ! i) then cells es ! i else NaN)
          \<and> errNeg_column (cells es) ! i = (if negative (cells es ! i) then cells es ! i else NaN)
          \<and> (cells es ! i = Num 0 \<longrightarrow>
                errPos_column (cells es) ! i = NaN \<and> errNeg_column (cells es) ! i = NaN)"
    by (simp add: errPos_column_nth errNeg_column_nth)
  have skip: "agg (filter positive (cells es)) = Inr ep \<and> agg (filter negative (cells es)) = Inr en"
    if "skips_missing agg"
  proof -
    from that have "agg (errPos_column (cells es)) = agg (filter positive (cells es))"
      using errPos_column_filter [of "cells es"] unfolding skips_missing_def by metis
    moreover from that have "agg (errNeg_column (cells es)) = agg (filter negative (cells es))"
      using errNeg_column_filter [of "cells es"] unfolding skips_missing_def by metis
    ultimately show ?thesis using ep en by simp
  qed
  from ep en rows len at skip show ?thesis by blast
qed

theorem error_reducer_nan_padded_split_witness:
  "skips_missing series_mean
   \<and> error_transform_function series_mean
        [(''x'', float_series [Num 1, Num 2, Num 3, Num 4]),
         (''errors'', float_series [Num 2, Num (- 1), Num 3, Num 0]),
         (''predictedYSmooth'', float_series [Num 1, Num 1, Num 2, Num 4]),
         (''Type'', \<lparr>categorical = True, cells = [Str ''a'', Str ''a'', Str ''a'', Str ''a'']\<rparr>)]
        ''Type'' ''x'' Continuous
      = Inr [[(''x'', Num 4), (''Type'', Str ''a''), (''predictedYSmooth'', Num 2),
              (''errPos'', Num (5 / 2)), (''errNeg'', Num (- 1))]]
   \<and> errPos_column [Num 2, Num (- 1), Num 3, Num 0] = [Num 2, NaN, Num 3, NaN]
   \<and> errNeg_column [Num 2, Num (- 1), Num 3, Num 0] = [NaN, Num (- 1), NaN, NaN]
   \<and> series_mean [Num 2, NaN, Num 3, NaN] = Inr (Num (5 / 2))
   \<and> series_mean [Num 2, Num 3] = Inr (Num (5 / 2))
   \<and> series_mean [Num (- 1)] = Inr (Num (- 1))"
proof -
  let ?es = "float_series [Num 2, Num (- 1), Num 3, Num 0]"
  let ?g = "[(''x'', float_series [Num 1, Num 2, Num 3, Num 4]),
         (''errors'', ?es),
         (''predictedYSmooth'', float_series [Num 1, Num 1, Num 2, Num 4]),
         (''Type'', \<lparr>categorical = True, cells = [Str ''a'', Str ''a'', Str ''a'', Str ''a'']\<rparr>)]"
  let ?r = "[(''x'', Num 4), (''Type'', Str ''a''), (''predictedYSmooth'', Num 2),
              (''errPos'', Num (5 / 2)), (''errNeg'', Num (- 1))]"
  have errs: "getitem ?g ''errors'' = Inr ?es" by (simp add: getitem_def)
  have run: "error_transform_function series_mean ?g ''Type'' ''x'' Continuous = Inr [?r]"
    by (simp add: error_transform_function_def getitem_def float_series_def has_label_def
        error_toreturn_def series_max_def series_mean_def numbers_def labels_def
        List.map_filter_simps errPos_column_def errNeg_column_def series_mode_def
        sorted_keys_def dict_of_def)
  have cols: "errPos_column [Num 2, Num (- 1), Num 3, Num 0] = [Num 2, NaN, Num 3, NaN]"
    "errNeg_column [Num 2, Num (- 1), Num 3, Num 0] = [NaN, Num (- 1), NaN, NaN]"
    by (simp_all add: errPos_column_def errNeg_column_def)
  from error_reducer_nan_padded_split [OF errs run] skips_missing_series_mean
  obtain ep en where a: "series_mean (errPos_column (cells ?es)) = Inr ep"
    "(''errPos'', ep) \<in> set ?r"
    "series_mean (filter positive (cells ?es)) = Inr ep"
    "series_mean (filter negative (cells ?es)) = Inr en"
    "(''errNeg'', en) \<in> set ?r"
    by auto
  from a(2) have ep: "ep = Num (5 / 2)" by simp
  from a(5) have en: "en = Num (- 1)" by simp
  from a(1,3,4) ep en cols
  have "series_mean [Num 2, NaN, Num 3, NaN] = Inr (Num (5 / 2))
      \<and> series_mean [Num 2, Num 3] = Inr (Num (5 / 2))
      \<and> series_mean [Num (- 1)] = Inr (Num (- 1))"
    by (simp add: float_series_def)
  with run cols skips_missing_series_mean show ?thesis by simp
qed

text \<open>The claim as stated fails for an aggregate function that does not skip missing
  values: with \<open>np.median\<close> the bucket with errors \<open>[2, -1, 3, 0]\<close> has no \<open>errPos\<close>
  and no \<open>errNeg\<close>, while the medians of its positive and of its negative errors are
  \<open>5/2\<close> and \<open>-1\<close>.\<close>

theorem error_reducer_median_counterexample:
  "error_transform_function np_median
        [(''x'', float_series [Num 1, Num 2, Num 3, Num 4]),
         (''errors'', float_series [Num 2, Num (- 1), Num 3, Num 0]),
         (''predictedYSmooth'', float_series [Num 1, Num 1, Num 2, Num 4]),
         (''Type'', \<lparr>categorical = True, cells = [Str ''a'', Str ''a'', Str ''a'', Str ''a'']\<rparr>)]
        ''Type'' ''x'' Continuous
      = Inr [[(''x'', Num 4), (''Type'', Str ''a''), (''predictedYSmooth'', Num 2),
              (''errPos'', NaN), (''errNeg'', NaN)]]
   \<and> np_median (filter positive [Num 2, Num (- 1), Num 3, Num 0]) = Inr (Num (5 / 2))
   \<and> np_median (filter negative [Num 2, Num (- 1), Num 3, Num 0]) = Inr (Num (- 1))"
  by (simp add: error_transform_function_def getitem_def float_series_def has_label_def
      error_toreturn_def series_max_def series_mean_def numbers_def labels_def
      List.map_filter_simps errPos_column_def errNeg_column_def series_mode_def
      sorted_keys_def dict_of_def np_median_def median_of_def Let_def)

section \<open>What a driver call and a run change on the instance\<close>

lemma sens_var_check_cases:
  "sens_var_check env self col groupby = (self', r) \<Longrightarrow> self' = self \<or> (\<exists>d. self' = assign_diff self d)"
  by (auto simp: sens_var_check_def Let_def split: sum.splits prod.splits if_splits)

lemma var_check_cases:
  "var_check env self col groupby = (self', r) \<Longrightarrow> self' = self \<or> (\<exists>d. self' = assign_diff self d)"
  by (auto simp: var_check_def dest: sens_var_check_cases split: wb_class.splits)

lemma var_check_accumulators:
  assumes "var_check env self col groupby = (self', r)"
  shows "raw_df self' = raw_df self \<and> agg_df self' = agg_df self \<and> outputs self' = outputs self
    \<and> groupbyvars self' = groupbyvars self"
  using var_check_cases [OF assms] by (auto simp: assign_diff_def)

lemma run_groupbyvars_accumulators:
  "run_groupbyvars env self col gs colhold ins = (self', r) \<Longrightarrow>
     raw_df self' = raw_df self \<and> agg_df self' = agg_df self \<and> outputs self' = outputs self
     \<and> groupbyvars self' = groupbyvars self"
proof (induction gs arbitrary: self colhold ins)
  case Nil
  then show ?case by simp
next
  case (Cons g gs)
  show ?case
  proof (cases "col \<noteq> g")
    case True
    obtain s1 r1 where vc: "var_check env self col g = (s1, r1)" by (cases "var_check env self col g")
    note acc = var_check_accumulators [OF vc]
    show ?thesis
    proof (cases r1)
      case (Inl e)
      with Cons.prems True vc acc show ?thesis by simp
    next
      case (Inr j)
      with Cons.prems True vc have "run_groupbyvars env s1 col gs (colhold @ [j]) ins = (self', r)"
        by simp
      from Cons.IH [OF this] acc show ?thesis by simp
    qed
  next
    case False
    show ?thesis
    proof (cases "create_accuracy env (model_type self) (cat_df self) (error_type self) g")
      case (Inl e)
      with Cons.prems False show ?thesis by simp
    next
      case (Inr a)
      with Cons.prems False have "run_groupbyvars env self col gs colhold (ins @ a) = (self', r)"
        by simp
      from Cons.IH [OF this] show ?thesis .
    qed
  qed
qed

lemma run_cols_accumulators:
  "run_cols env self cols ph ins = (self', r) \<Longrightarrow>
     raw_df self' = raw_df self \<and> agg_df self' = agg_df self \<and> outputs self' = outputs self
     \<and> groupbyvars self' = groupbyvars self"
proof (induction cols arbitrary: self ph ins)
  case Nil
  then show ?case by simp
next
  case (Cons col cols)
  obtain s1 r1 where g: "run_groupbyvars env self col (groupbyvars self) [] ins = (s1, r1)"
    by (cases "run_groupbyvars env self col (groupbyvars self) [] ins")
  note acc = run_groupbyvars_accumulators [OF g]
  show ?case
  proof (cases r1)
    case (Inl e)
    with Cons.prems g acc show ?thesis by simp
  next
    case (Inr p)
    obtain colhold ins' where p: "p = (colhold, ins')" by (cases p)
    show ?thesis
    proof (cases "0 < length colhold")
      case True
      show ?thesis
      proof (cases "flatten_json env colhold")
        case (Inl e)
        with Cons.prems g Inr p True acc show ?thesis by simp
      next
        case fj: (Inr j)
        with Cons.prems g Inr p True have "run_cols env s1 cols (ph @ [j]) ins' = (self', r)" by simp
        from Cons.IH [OF this] acc show ?thesis by simp
      qed
    next
      case False
      with Cons.prems g Inr p have "run_cols env s1 cols ph ins' = (self', r)" by simp
      from Cons.IH [OF this] acc show ?thesis by simp
    qed
  qed
qed

lemma run_accumulators:
  assumes "run env self ot op = (self', r)"
  shows "raw_df self' = raw_df self \<and> agg_df self' = agg_df self"
proof (cases "ot \<in> set (supported_out_types env)")
  case False
  with assms show ?thesis by (simp add: run_def)
next
  case True
  show ?thesis
  proof (cases "fmt_sklearn_preds env (predict_engine self) (modelobj self) (model_df self)
                  (cat_df self) (ydepend self) (model_type self)")
    case (Inl e)
    with assms True show ?thesis by (simp add: run_def)
  next
    case (Inr p)
    obtain cdf mdf where p: "p = (cdf, mdf)" by (cases p)
    let ?s1 = "self\<lparr>cat_df := cdf, model_df := mdf\<rparr>"
    let ?cols = "filter (\<lambda>c. c \<notin> set [''errors'', ''predictedYSmooth'', ydepend ?s1]) (columns (cat_df ?s1))"
    obtain s2 r2 where rc: "run_cols env ?s1 ?cols [] [] = (s2, r2)"
      by (cases "run_cols env ?s1 ?cols [] []")
    from run_cols_accumulators [OF rc] have acc: "raw_df s2 = raw_df self" "agg_df s2 = agg_df self"
      by simp_all
    from assms True Inr p rc acc show ?thesis
      by (auto simp: run_def Let_def split: sum.splits prod.splits option.splits if_splits)
  qed
qed

section \<open>Evaluating the worked example\<close>

lemmas frame_eval = getitem_def float_series_def nrows_def columns_def take_rows_def rows_where_def
  select_cols_def drop_cols_def groupby_frames_def groupby2_frames_def apply_groups_def
  sorted_keys_def numbers_def labels_def List.map_filter_simps has_label_def
  series_max_def series_mean_def series_std_def series_mode_def dict_of_def
  rename_columns_def set_column_def replace_nan_def align_def assign_const_def sum_bind_def

lemmas driver_eval = sens_var_check_def perturb_continuous_def perturb_categorical_def rescore_def
  assign_diff_def col_indices_def sens_categorical_groups_def sens_categorical_records_def
  sens_continuous_records_def continuous_slice_def fixed_bins_def transform_function_def
  sens_transform_function_def error_transform_function_def error_records_def error_var_check_def
  error_toreturn_def errPos_column_def errNeg_column_def aggregate_frame_def
  level_pairs_def error_categorical_rows_def

lemmas run_eval = run_def var_check_def save_def get_raw_df_def get_agg_df_def reset_index_def

lemmas init_eval = base_init_def whitebox_error_init_def whitebox_sensitivity_init_def
  truthy_def raise_if_def

lemmas demo_eval = demo_env_def demo_wb_def demo_model_def demo_model_df_def demo_cat_df_def
  demo_one_row_def demo_group_only_def

lemma demo_sensitivity_init:
  "whitebox_sensitivity_init demo_env demo_model demo_model_df ''y'' (Some demo_cat_df)
     [(''x'', ''X'')] (Some [''Grp'']) series_mean (Some 0) 1 = Inr (demo_wb WhiteBoxSensitivity)"
  by (simp add: init_eval demo_env_def demo_wb_def sum_bind_def columns_def)

lemma demo_error_init:
  "whitebox_error_init demo_env demo_model demo_model_df ''y'' (Some demo_cat_df)
     [(''x'', ''X'')] (Some [''Grp'']) series_mean (Some 0) = Inr (demo_wb WhiteBoxError)"
  by (simp add: init_eval demo_env_def demo_wb_def sum_bind_def columns_def)

section \<open>The accumulators \<open>raw_df\<close> and \<open>agg_df\<close>\<close>

lemma base_init_fresh:
  assumes "base_init env cls mobj mdf yd cdf keep gvars agg etype af verbose = Inr self"
  shows "raw_df self = [] \<and> agg_df self = [] \<and> outputs self = None"
  using assms
  by (auto simp: base_init_def sum_bind_def split: if_splits sum.splits prod.splits)

lemma whitebox_error_init_fresh:
  assumes "whitebox_error_init env mobj mdf yd cdf fdict gvars agg verbose = Inr self"
  shows "raw_df self = [] \<and> agg_df self = [] \<and> outputs self = None"
  using assms base_init_fresh
  by (fastforce simp: whitebox_error_init_def split: sum.splits)

lemma whitebox_sensitivity_init_fresh:
  assumes "whitebox_sensitivity_init env mobj mdf yd cdf fdict gvars agg verbose n = Inr self"
  shows "raw_df self = [] \<and> agg_df self = [] \<and> outputs self = None"
  using assms base_init_fresh
  by (fastforce simp: whitebox_sensitivity_init_def split: sum.splits if_splits)

lemma run_completed_outputs:
  assumes "run env self ot op = (self', Inr res)"
  shows "outputs self' \<noteq> None"
  using assms
  by (auto simp: run_def Let_def save_def get_raw_df_def get_agg_df_def
      split: sum.splits prod.splits option.splits if_splits)

text \<open>
  Claim C10. The constructors leave \<open>raw_df\<close> and \<open>agg_df\<close> empty and no step of
  \<open>run\<close> changes them (\<open>fmt_raw_df\<close> and \<open>fmt_agg_df\<close>, the only definitions that
  append to them, are not part of \<open>run\<close>), so after a completed run on an instance
  whose accumulators are empty both getters return a table with zero rows.
\<close>

theorem accumulators_stay_empty:
  "(whitebox_error_init env mobj mdf yd cdf fdict gvars agg verbose = Inr self0
      \<longrightarrow> raw_df self0 = [] \<and> agg_df self0 = [])
   \<and> (whitebox_sensitivity_init env mobj mdf yd cdf fdict gvars agg verbose n = Inr self1
      \<longrightarrow> raw_df self1 = [] \<and> agg_df self1 = [])
   \<and> (run env self ot op = (self', r)
      \<longrightarrow> raw_df self' = raw_df self \<and> agg_df self' = agg_df self)
   \<and> (raw_df self = [] \<and> agg_df self = [] \<and> run env self ot op = (self', Inr res)
      \<longrightarrow> get_raw_df self' = Inr [] \<and> get_agg_df self' = Inr [])"
proof (intro conjI impI)
  assume "whitebox_error_init env mobj mdf yd cdf fdict gvars agg verbose = Inr self0"
  from whitebox_error_init_fresh [OF this] show "raw_df self0 = []" "agg_df self0 = []"
    by simp_all
next
  assume "whitebox_sensitivity_init env mobj mdf yd cdf fdict gvars agg verbose n = Inr self1"
  from whitebox_sensitivity_init_fresh [OF this] show "raw_df self1 = []" "agg_df self1 = []"
    by simp_all
next
  assume "run env self ot op = (self', r)"
  from run_accumulators [OF this] show "raw_df self' = raw_df self" "agg_df self' = agg_df self"
    by simp_all
next
  assume a: "raw_df self = [] \<and> agg_df self = [] \<and> run env self ot op = (self', Inr res)"
  then have run: "run env self ot op = (self', Inr res)" by simp
  from run_accumulators [OF run] a have e: "raw_df self' = []" "agg_df self' = []" by simp_all
  from run_completed_outputs [OF run] obtain out where "outputs self' = Some out" by auto
  with e show "get_raw_df self' = Inr []" "get_agg_df self' = Inr []"
    by (simp_all add: get_raw_df_def get_agg_df_def reset_index_def)
qed

theorem accumulators_stay_empty_witness:
  "whitebox_error_init demo_env demo_model demo_model_df ''y'' (Some demo_cat_df)
      [(''x'', ''X'')] (Some [''Grp'']) series_mean (Some 0) = Inr (demo_wb WhiteBoxError)
   \<and> raw_df (demo_wb WhiteBoxError) = []
   \<and> snd (run demo_env (demo_wb WhiteBoxError) ''raw_data'' '''') = Inr (Some [])
   \<and> get_raw_df (fst (run demo_env (demo_wb WhiteBoxError) ''raw_data'' '''')) = Inr []
   \<and> get_agg_df (fst (run demo_env (demo_wb WhiteBoxError) ''raw_data'' '''')) = Inr []"
proof -
  let ?s = "demo_wb WhiteBoxError"
  let ?r = "run demo_env ?s ''raw_data'' ''''"
  have r: "snd ?r = Inr (Some [])"
    by (simp add: frame_eval driver_eval demo_eval run_eval Let_def)
  then have run: "?r = (fst ?r, Inr (Some []))" by (metis prod.collapse)
  have e: "raw_df ?s = [] \<and> agg_df ?s = []" by (simp add: demo_wb_def)
  from accumulators_stay_empty [of demo_env demo_model demo_model_df "''y''" "Some demo_cat_df"
      "[(''x'', ''X'')]" "Some [''Grp'']" series_mean "Some 0" ?s 1 ?s ?s "''raw_data''" "''''"
      "fst ?r" "Inr (Some [])" "Some []"]
    demo_error_init run e r
  show ?thesis by simp
qed

section \<open>The getters and the life cycle of \<open>outputs\<close>\<close>

lemma run_outputs_cases:
  assumes "run env self ot op = (self', r)"
  shows "outputs self' = outputs self
    \<or> (outputs self' \<noteq> None \<and> (\<forall>e. r = Inl e \<longrightarrow> ot = ''html'' \<and> save env self' op = Some e))"
proof (cases "ot \<in> set (supported_out_types env)")
  case False
  with assms show ?thesis by (simp add: run_def)
next
  case True
  show ?thesis
  proof (cases "fmt_sklearn_preds env (predict_engine self) (modelobj self) (model_df self)
                  (cat_df self) (ydepend self) (model_type self)")
    case (Inl e)
    with assms True show ?thesis by (simp add: run_def)
  next
    case (Inr p)
    obtain cdf mdf where p: "p = (cdf, mdf)" by (cases p)
    let ?s1 = "self\<lparr>cat_df := cdf, model_df := mdf\<rparr>"
    let ?cols = "filter (\<lambda>c. c \<notin> set [''errors'', ''predictedYSmooth'', ydepend ?s1]) (columns (cat_df ?s1))"
    obtain s2 r2 where rc: "run_cols env ?s1 ?cols [] [] = (s2, r2)"
      by (cases "run_cols env ?s1 ?cols [] []")
    from run_cols_accumulators [OF rc] have acc: "outputs s2 = outputs self" by simp
    from assms True Inr p rc acc show ?thesis
      by (auto simp: run_def Let_def get_raw_df_def get_agg_df_def
          split: sum.splits prod.splits option.splits if_splits)
  qed
qed

lemma run_html_save_fails:
  assumes "run env self ''raw_data'' op' = (self3, Inr res)"
    and "''html'' \<in> set (supported_out_types env)"
    and "save env self3 op = Some e"
  shows "run env self ''html'' op = (self3, Inl e)"
  using assms
  by (auto simp: run_def Let_def get_raw_df_def split: sum.splits prod.splits if_splits option.splits)

text \<open>
  Claim C9, as the code has it. The getters raise \<open>RuntimeError\<close> exactly while the
  instance has no \<open>outputs\<close>: on a fresh instance, and after a run that failed
  before it assembled its outputs. After a completed run both getters return a
  table. A run that fails only in writing the HTML report has assigned \<open>outputs\<close>
  before: whenever the analysis of the instance completes (as a run with output type
  \<open>raw_data\<close> shows) and writing the report fails, the run with output type \<open>html\<close>
  raises that error and both getters return a table after it.
\<close>

theorem getters_need_outputs:
  "(whitebox_error_init env mobj mdf yd cdf fdict gvars agg verbose = Inr self0
      \<longrightarrow> get_raw_df self0 = Inl RuntimeError \<and> get_agg_df self0 = Inl RuntimeError)
   \<and> (whitebox_sensitivity_init env mobj mdf yd cdf fdict gvars agg verbose n = Inr self1
      \<longrightarrow> get_raw_df self1 = Inl RuntimeError \<and> get_agg_df self1 = Inl RuntimeError)
   \<and> (run env self ot op = (self', Inr res)
      \<longrightarrow> (\<exists>df. get_raw_df self' = Inr df) \<and> (\<exists>df. get_agg_df self' = Inr df))
   \<and> (outputs self = None \<and> run env self ot op = (self', Inl e)
      \<longrightarrow> (get_raw_df self' = Inl RuntimeError \<and> get_agg_df self' = Inl RuntimeError)
          \<or> (ot = ''html'' \<and> save env self' op = Some e
              \<and> (\<exists>df. get_raw_df self' = Inr df) \<and> (\<exists>df. get_agg_df self' = Inr df)))
   \<and> (run env self ''raw_data'' op' = (assembled, Inr res') \<and> ''html'' \<in> set (supported_out_types env)
        \<and> save env assembled op = Some e'
      \<longrightarrow> run env self ''html'' op = (assembled, Inl e')
          \<and> (\<exists>df. get_raw_df assembled = Inr df) \<and> (\<exists>df. get_agg_df assembled = Inr df))"
proof (intro conjI impI)
  assume "whitebox_error_init env mobj mdf yd cdf fdict gvars agg verbose = Inr self0"
  from whitebox_error_init_fresh [OF this]
  show "get_raw_df self0 = Inl RuntimeError" "get_agg_df self0 = Inl RuntimeError"
    by (simp_all add: get_raw_df_def get_agg_df_def)
next
  assume "whitebox_sensitivity_init env mobj mdf yd cdf fdict gvars agg verbose n = Inr self1"
  from whitebox_sensitivity_init_fresh [OF this]
  show "get_raw_df self1 = Inl RuntimeError" "get_agg_df self1 = Inl RuntimeError"
    by (simp_all add: get_raw_df_def get_agg_df_def)
next
  assume "run env self ot op = (self', Inr res)"
  from run_completed_outputs [OF this] obtain out where "outputs self' = Some out" by auto
  then show "\<exists>df. get_raw_df self' = Inr df" "\<exists>df. get_agg_df self' = Inr df"
    by (simp_all add: get_raw_df_def get_agg_df_def)
next
  assume a: "outputs self = None \<and> run env self ot op = (self', Inl e)"
  then have run: "run env self ot op = (self', Inl e)" by simp
  from run_outputs_cases [OF run] a
  consider "outputs self' = None" | "outputs self' \<noteq> None" "ot = ''html''" "save env self' op = Some e"
    by auto
  then show "(get_raw_df self' = Inl RuntimeError \<and> get_agg_df self' = Inl RuntimeError)
          \<or> (ot = ''html'' \<and> save env self' op = Some e
              \<and> (\<exists>df. get_raw_df self' = Inr df) \<and> (\<exists>df. get_agg_df self' = Inr df))"
  proof cases
    case 1
    then show ?thesis by (simp add: get_raw_df_def get_agg_df_def)
  next
    case 2
    then obtain out where "outputs self' = Some out" by auto
    with 2 show ?thesis by (simp add: get_raw_df_def get_agg_df_def)
  qed
next
  assume a: "run env self ''raw_data'' op' = (assembled, Inr res') \<and> ''html'' \<in> set (supported_out_types env)
        \<and> save env assembled op = Some e'"
  then have r: "run env self ''raw_data'' op' = (assembled, Inr res')" by simp
  from a show "run env self ''html'' op = (assembled, Inl e')"
    by (intro run_html_save_fails [of env self op' assembled res']) simp_all
  from run_completed_outputs [OF r] obtain out where "outputs assembled = Some out" by auto
  then show "\<exists>df. get_raw_df assembled = Inr df" "\<exists>df. get_agg_df assembled = Inr df"
    by (simp_all add: get_raw_df_def get_agg_df_def)
qed

theorem getters_need_outputs_witness:
  "get_raw_df (demo_group_only WhiteBoxSensitivity) = Inl RuntimeError
   \<and> get_agg_df (demo_group_only WhiteBoxSensitivity) = Inl RuntimeError
   \<and> snd (run demo_env (demo_group_only WhiteBoxSensitivity) ''raw_data'' '''') = Inr (Some [])
   \<and> (\<exists>df. get_raw_df (fst (run demo_env (demo_group_only WhiteBoxSensitivity) ''raw_data'' '''')) = Inr df)
   \<and> (\<exists>df. get_agg_df (fst (run demo_env (demo_group_only WhiteBoxSensitivity) ''raw_data'' '''')) = Inr df)
   \<and> save demo_env (fst (run demo_env (demo_group_only WhiteBoxSensitivity) ''raw_data'' '''')) ''''
       = Some FileNotFoundError
   \<and> run demo_env (demo_group_only WhiteBoxSensitivity) ''html'' ''''
       = (fst (run demo_env (demo_group_only WhiteBoxSensitivity) ''raw_data'' ''''),
          Inl FileNotFoundError)"
proof -
  let ?s = "demo_group_only WhiteBoxSensitivity"
  let ?r = "run demo_env ?s ''raw_data'' ''''"
  have r: "snd ?r = Inr (Some [])"
    by (simp add: frame_eval driver_eval demo_eval run_eval Let_def)
  then have run: "?r = (fst ?r, Inr (Some []))" by (metis prod.collapse)
  have h: "''html'' \<in> set (supported_out_types demo_env)" by (simp add: demo_env_def)
  have sv: "save demo_env (fst ?r) '''' = Some FileNotFoundError"
    by (simp add: frame_eval driver_eval demo_eval run_eval Let_def)
  have o: "get_raw_df ?s = Inl RuntimeError" "get_agg_df ?s = Inl RuntimeError"
    by (simp_all add: get_raw_df_def get_agg_df_def demo_group_only_def demo_wb_def)
  note t = getters_need_outputs [where env = demo_env and self = ?s and ot = "''raw_data''"
      and op = "''''" and op' = "''''" and self' = "fst ?r" and res = "Some []"
      and assembled = "fst ?r" and res' = "Some []" and e' = FileNotFoundError]
  from t run have a: "\<exists>df. get_raw_df (fst ?r) = Inr df" "\<exists>df. get_agg_df (fst ?r) = Inr df"
    by blast+
  from t run h sv have b: "run demo_env ?s ''html'' '''' = (fst ?r, Inl FileNotFoundError)"
    by blast
  from o r a sv b show ?thesis by simp
qed

text \<open>The claim as stated fails: on a table whose only analysis column is the group
  variable, the run that raises while saving the report has not completed, and the
  getters do not raise after it.\<close>

theorem getter_after_failed_save_counterexample:
  "snd (run demo_env (demo_group_only WhiteBoxSensitivity) ''html'' '''') = Inl FileNotFoundError
   \<and> get_raw_df (fst (run demo_env (demo_group_only WhiteBoxSensitivity) ''html'' '''')) = Inr []
   \<and> get_agg_df (fst (run demo_env (demo_group_only WhiteBoxSensitivity) ''html'' '''')) = Inr []"
  by (simp add: frame_eval driver_eval demo_eval run_eval Let_def)

section \<open>Configuration errors\<close>

text \<open>
  Claim C7. Each configuration error is the outcome of the constructor or of \<open>run\<close>
  whatever the tables, the model and the collaborators that would copy, check or
  score data are: a perturbation magnitude outside \<open>{-3,-2,-1,1,2,3}\<close> ends
  \<open>WhiteBoxSensitivity.__init__\<close> at its first statement; an unsupported error
  metric and missing group variables end \<open>WhiteBoxBase.__init__\<close> (once the logging
  level is looked up) before any table is copied; an unsupported output type ends
  \<open>run\<close> at its entry, with the instance as it was.
\<close>

theorem configuration_errors_eager:
  "(n \<notin> set [- 3, - 2, - 1, 1, 2, 3]
      \<longrightarrow> whitebox_sensitivity_init env mobj mdf yd cdf fdict gvars agg verbose n = Inl ValueError)
   \<and> (map_of (verbose2log env) verbose \<noteq> None \<and> etype \<notin> set (supported_agg_errors env)
      \<longrightarrow> base_init env cls mobj mdf yd cdf keep gvars agg etype af verbose
            = Inl (ConfiguredError ''error_type''))
   \<and> (map_of (verbose2log env) verbose \<noteq> None \<and> etype \<in> set (supported_agg_errors env)
        \<and> (gvars = None \<or> gvars = Some [])
      \<longrightarrow> base_init env cls mobj mdf yd cdf keep gvars agg etype af verbose
            = Inl (ConfiguredError ''groupbyvars''))
   \<and> (ot \<notin> set (supported_out_types env) \<longrightarrow> run env self ot op = (self, Inl ValueError))"
  by (simp add: whitebox_sensitivity_init_def base_init_def run_def)

theorem configuration_errors_eager_witness:
  "whitebox_sensitivity_init demo_env demo_model demo_model_df ''y'' (Some demo_cat_df)
      [(''x'', ''X'')] (Some [''Grp'']) series_mean (Some 0) 5 = Inl ValueError
   \<and> base_init demo_env WhiteBoxError demo_model demo_model_df ''y'' (Some demo_cat_df) None
        (Some [''Grp'']) series_mean ''R2'' False (Some 0) = Inl (ConfiguredError ''error_type'')
   \<and> base_init demo_env WhiteBoxError demo_model demo_model_df ''y'' (Some demo_cat_df) None
        (Some []) series_mean ''RMSE'' False (Some 0) = Inl (ConfiguredError ''groupbyvars'')
   \<and> run demo_env (demo_wb WhiteBoxError) ''pdf'' '''' = (demo_wb WhiteBoxError, Inl ValueError)"
proof -
  have v: "map_of (verbose2log demo_env) (Some 0) \<noteq> None" by (simp add: demo_env_def)
  have n: "(5::int) \<notin> set [- 3, - 2, - 1, 1, 2, 3]" by simp
  have e: "''R2'' \<notin> set (supported_agg_errors demo_env)" by (simp add: demo_env_def)
  have e': "''RMSE'' \<in> set (supported_agg_errors demo_env)" by (simp add: demo_env_def)
  have o: "''pdf'' \<notin> set (supported_out_types demo_env)" by (simp add: demo_env_def)
  from configuration_errors_eager [of 5 demo_env demo_model demo_model_df "''y''" "Some demo_cat_df"
      "[(''x'', ''X'')]" "Some [''Grp'']" series_mean "Some 0" "''R2''" WhiteBoxError None False
      "''pdf''" "demo_wb WhiteBoxError" "''''"] n v e o
  have a: "whitebox_sensitivity_init demo_env demo_model demo_model_df ''y'' (Some demo_cat_df)
      [(''x'', ''X'')] (Some [''Grp'']) series_mean (Some 0) 5 = Inl ValueError"
    "base_init demo_env WhiteBoxError demo_model demo_model_df ''y'' (Some demo_cat_df) None
        (Some [''Grp'']) series_mean ''R2'' False (Some 0) = Inl (ConfiguredError ''error_type'')"
    "run demo_env (demo_wb WhiteBoxError) ''pdf'' '''' = (demo_wb WhiteBoxError, Inl ValueError)"
    by simp_all
  from configuration_errors_eager [of 5 demo_env demo_model demo_model_df "''y''" "Some demo_cat_df"
      "[(''x'', ''X'')]" "Some []" series_mean "Some 0" "''RMSE''" WhiteBoxError None False
      "''pdf''" "demo_wb WhiteBoxError" "''''"] v e'
  have b: "base_init demo_env WhiteBoxError demo_model demo_model_df ''y'' (Some demo_cat_df) None
        (Some []) series_mean ''RMSE'' False (Some 0) = Inl (ConfiguredError ''groupbyvars'')"
    by simp
  from a b show ?thesis by simp
qed

section \<open>The frame of the sensitivity driver\<close>

lemma getitem_setitem:
  "getitem (setitem df n s) m = (if m = n then Inr s else getitem df m)"
  by (induction df) (auto simp: getitem_def)

lemma columns_setitem:
  "columns (setitem df n s) = (if n \<in> set (columns df) then columns df else columns df @ [n])"
  by (induction df) (force simp: columns_def)+

lemma length_align: "length (align n cs) = n"
  by (simp add: align_def)

lemma nrows_setitem_align:
  "nrows (setitem df n (float_series (align (nrows df) d))) = nrows df"
  by (cases df) (auto simp: nrows_def float_series_def length_align)

lemma assign_diff_other_fields:
  "assign_diff self d = self\<lparr>cat_df := cat_df (assign_diff self d)\<rparr>"
  by (simp add: assign_diff_def)

lemma getitem_assign_diff:
  "getitem (cat_df (assign_diff self d)) name =
     (if name = ''diff'' then Inr (float_series (align (nrows (cat_df self)) d))
      else getitem (cat_df self) name)"
  by (simp add: assign_diff_def getitem_setitem)

lemma columns_assign_diff:
  "columns (cat_df (assign_diff self d)) = columns (cat_df self)
   \<or> columns (cat_df (assign_diff self d)) = columns (cat_df self) @ [''diff'']"
  by (simp add: assign_diff_def columns_setitem)

text \<open>The claim as stated fails: the call adds the column \<open>diff\<close> to the live table.\<close>

theorem live_table_gains_diff_counterexample:
  "cat_df (fst (sens_var_check demo_env (demo_wb WhiteBoxSensitivity) ''x'' ''Grp''))
     = demo_cat_df @ [(''diff'', float_series [Num 2, Num 2, Num 2])]
   \<and> cat_df (fst (sens_var_check demo_env (demo_wb WhiteBoxSensitivity) ''x'' ''Grp''))
     \<noteq> cat_df (demo_wb WhiteBoxSensitivity)"
  by (simp add: frame_eval driver_eval demo_eval Let_def)

section \<open>Calling a driver twice\<close>

lemma setitem_setitem: "setitem (setitem df n s) n s' = setitem df n s'"
  by (induction df) auto

lemma assign_diff_idem: "assign_diff (assign_diff self d) d = assign_diff self d"
  by (simp add: assign_diff_def setitem_setitem nrows_setitem_align)

lemma assign_diff_reads:
  "model_df (assign_diff self d) = model_df self"
  "modelobj (assign_diff self d) = modelobj self"
  "ydepend (assign_diff self d) = ydepend self"
  "std_num (assign_diff self d) = std_num self"
  "called_class (assign_diff self d) = called_class self"
  by (simp_all add: assign_diff_def)

lemma select_cols_distinct: "select_cols names df = Inr sub \<Longrightarrow> distinct names"
  by (auto simp: select_cols_def split: sum.splits if_splits)

lemma sens_continuous_records_distinct:
  "sens_continuous_records env self col groupby inc = Inr a \<Longrightarrow> distinct (col_indices col groupby)"
  by (auto simp: sens_continuous_records_def dest: select_cols_distinct split: sum.splits)

lemma sens_categorical_records_distinct:
  "sens_categorical_records self col groupby m = Inr a \<Longrightarrow> distinct (col_indices col groupby)"
  by (auto simp: sens_categorical_records_def sens_categorical_groups_def
      dest: select_cols_distinct split: sum.splits)

lemma sens_var_check_success_distinct:
  "sens_var_check env self col groupby = (self', Inr j) \<Longrightarrow> distinct (col_indices col groupby)"
  by (auto simp: sens_var_check_def Let_def
      dest: sens_continuous_records_distinct sens_categorical_records_distinct
      split: sum.splits prod.splits if_splits)

lemma sens_var_check_again:
  assumes "col \<noteq> ''diff''" and "sens_var_check env self col groupby = (self1, r1)"
  shows "sens_var_check env self1 col groupby = (self1, r1)"
proof (cases "getitem (cat_df self) col")
  case (Inl e)
  with assms show ?thesis by (simp add: sens_var_check_def)
next
  case (Inr c)
  show ?thesis
  proof (cases "categorical c")
    case True
    show ?thesis
    proof (cases "perturb_categorical env (model_df self) col c")
      case (Inl e)
      with assms Inr True show ?thesis by (simp add: sens_var_check_def)
    next
      case p: (Inr q)
      obtain copydf' mode_val where q: "q = (copydf', mode_val)" by (cases q)
      show ?thesis
      proof (cases "rescore (modelobj self) (ydepend self) copydf'")
        case (Inl e)
        with assms Inr True p q show ?thesis by (simp add: sens_var_check_def)
      next
        case d: (Inr d)
        with assms Inr True p q have s1: "self1 = assign_diff self d"
          and r1: "r1 = (case sens_categorical_records (assign_diff self d) col groupby mode_val of
                            Inl e \<Rightarrow> Inl e | Inr a \<Rightarrow> to_json env a)"
          by (auto simp: sens_var_check_def Let_def)
        show ?thesis
          using assms(1) Inr True p q d
          by (simp add: s1 r1 sens_var_check_def Let_def getitem_assign_diff assign_diff_reads
              assign_diff_idem)
      qed
    qed
  next
    case False
    show ?thesis
    proof (cases "perturb_continuous (model_df self) col (std_num self)")
      case (Inl e)
      with assms Inr False show ?thesis by (simp add: sens_var_check_def)
    next
      case p: (Inr q)
      obtain copydf' inc where q: "q = (copydf', inc)" by (cases q)
      show ?thesis
      proof (cases "rescore (modelobj self) (ydepend self) copydf'")
        case (Inl e)
        with assms Inr False p q show ?thesis by (simp add: sens_var_check_def)
      next
        case d: (Inr d)
        with assms Inr False p q have s1: "self1 = assign_diff self d"
          and r1: "r1 = (case sens_continuous_records env (assign_diff self d) col groupby inc of
                            Inl e \<Rightarrow> Inl e | Inr a \<Rightarrow> to_json env a)"
          by (auto simp: sens_var_check_def Let_def)
        show ?thesis
          using assms(1) Inr False p q d
          by (simp add: s1 r1 sens_var_check_def Let_def getitem_assign_diff assign_diff_reads
              assign_diff_idem)
      qed
    qed
  qed
qed

text \<open>
  Claim C8. When a call of the driver yields Summary Records, the next call with the
  same column and group variable on the instance as the first call left it yields
  the same records. For every column other than \<open>diff\<close> the second call has the
  outcome of the first whatever it was, and leaves the instance as the first call
  left it: the column \<open>diff\<close> that the sensitivity driver writes is written again
  with the same values before it is read.
\<close>

theorem driver_twice_same_records:
  assumes first: "var_check env self col groupby = (self1, r1)"
    and second: "var_check env self1 col groupby = (self2, r2)"
  shows "(\<forall>j. r1 = Inr j \<longrightarrow> r2 = Inr j) \<and> (col \<noteq> ''diff'' \<longrightarrow> r2 = r1 \<and> self2 = self1)"
proof (cases "called_class self")
  case WhiteBoxError
  with first have "self1 = self" "r1 = error_var_check env self col groupby"
    by (auto simp: var_check_def)
  with second WhiteBoxError show ?thesis by (auto simp: var_check_def)
next
  case WhiteBoxSensitivity
  with first have f: "sens_var_check env self col groupby = (self1, r1)"
    by (simp add: var_check_def)
  from var_check_cases [OF first] have "called_class self1 = called_class self"
    by (auto simp: assign_diff_def)
  with second WhiteBoxSensitivity have s: "sens_var_check env self1 col groupby = (self2, r2)"
    by (simp add: var_check_def)
  have again: "r2 = r1 \<and> self2 = self1" if "col \<noteq> ''diff''"
    using sens_var_check_again [OF that f] s by simp
  have "r2 = Inr j" if "r1 = Inr j" for j
  proof -
    from f that have "distinct (col_indices col groupby)"
      by (auto dest: sens_var_check_success_distinct)
    then have "col \<noteq> ''diff''" by (auto simp: col_indices_def)
    with again that show ?thesis by simp
  qed
  with again show ?thesis by blast
qed

theorem driver_twice_same_records_witness:
  "snd (var_check demo_env (demo_wb WhiteBoxSensitivity) ''Type'' ''Grp'')
     = Inr \<lparr>table = [[(''Type'', Str ''b''), (''groupByValue'', Str ''v''),
                       (''predictedYSmooth'', Num (- 1)), (''groupByVarName'', Str ''Grp'')]],
             jvartype = Categorical, html_type = ''sensitivity'',
             incremental_val = Some (Str ''a'')\<rparr>
   \<and> snd (var_check demo_env (fst (var_check demo_env (demo_wb WhiteBoxSensitivity) ''Type'' ''Grp''))
          ''Type'' ''Grp'')
     = snd (var_check demo_env (demo_wb WhiteBoxSensitivity) ''Type'' ''Grp'')
   \<and> fst (var_check demo_env (fst (var_check demo_env (demo_wb WhiteBoxSensitivity) ''Type'' ''Grp''))
          ''Type'' ''Grp'')
     = fst (var_check demo_env (demo_wb WhiteBoxSensitivity) ''Type'' ''Grp'')"
proof -
  let ?s = "demo_wb WhiteBoxSensitivity"
  let ?a = "var_check demo_env ?s ''Type'' ''Grp''"
  let ?b = "var_check demo_env (fst ?a) ''Type'' ''Grp''"
  have first: "?a = (fst ?a, snd ?a)" by simp
  have second: "?b = (fst ?b, snd ?b)" by simp
  have ne: "''Type'' \<noteq> ''diff''" by simp
  have r: "snd ?a = Inr \<lparr>table = [[(''Type'', Str ''b''), (''groupByValue'', Str ''v''),
                       (''predictedYSmooth'', Num (- 1)), (''groupByVarName'', Str ''Grp'')]],
             jvartype = Categorical, html_type = ''sensitivity'',
             incremental_val = Some (Str ''a'')\<rparr>"
    by (simp add: var_check_def frame_eval driver_eval demo_eval Let_def)
  from driver_twice_same_records [OF first second] ne r show ?thesis by simp
qed

section \<open>The tables that the drivers hand to the JSON conversion\<close>



lemma sens_categorical_records_table:
  "sens_categorical_records self col groupby m = Inr a \<Longrightarrow> \<exists>T. table a = replace_nan T"
  by (auto simp: sens_categorical_records_def split: sum.splits)

lemma sens_continuous_records_table:
  "sens_continuous_records env self col groupby inc = Inr a \<Longrightarrow> \<exists>T. table a = replace_nan T"
  by (auto simp: sens_continuous_records_def split: sum.splits)

lemma sens_var_check_table:
  "sens_var_check env self col groupby = (self', Inr j) \<Longrightarrow>
     \<exists>a T. to_json env a = Inr j \<and> table a = replace_nan T"
  by (auto simp: sens_var_check_def Let_def
      dest: sens_categorical_records_table sens_continuous_records_table
      split: sum.splits prod.splits if_splits)



section \<open>The continuous perturbation\<close>

lemma rescore_Inr:
  assumes "rescore predict yd copydf = Inr d"
  shows "\<exists>preds pys. predict (drop_cols [yd, ''predictedYSmooth''] copydf) = Inr preds
     \<and> length preds = nrows copydf
     \<and> getitem copydf ''predictedYSmooth'' = Inr pys
     \<and> mapM (\<lambda>(a, b). cell_binop (-) a b) (zip preds (cells pys)) = Inr d"
  using assms
  by (auto simp: rescore_def Let_def getitem_setitem float_series_def split: sum.splits if_splits)

lemma perturb_continuous_Inr:
  assumes "perturb_continuous copydf col n = Inr (copydf', inc)"
  shows "\<exists>s sd shifted. getitem copydf col = Inr s \<and> series_std (cells s) = Inr sd
     \<and> cell_binop (*) sd (Num (real_of_int n)) = Inr inc
     \<and> mapM (\<lambda>c. cell_binop (+) c inc) (cells s) = Inr shifted
     \<and> copydf' = setitem copydf col (s\<lparr>cells := shifted\<rparr>)"
  using assms by (auto simp: perturb_continuous_def split: sum.splits)

lemma align_nth: "i < n \<Longrightarrow> i < length d \<Longrightarrow> align n d ! i = d ! i"
  by (simp add: align_def nth_append)

lemma sens_var_check_continuous_Inr:
  assumes "getitem (cat_df self) col = Inr c" "\<not> categorical c"
    and "sens_var_check env self col groupby = (self', Inr j)"
  shows "\<exists>copydf' inc d a. perturb_continuous (model_df self) col (std_num self) = Inr (copydf', inc)
     \<and> rescore (modelobj self) (ydepend self) copydf' = Inr d
     \<and> self' = assign_diff self d
     \<and> sens_continuous_records env self' col groupby inc = Inr a
     \<and> to_json env a = Inr j"
  using assms
  by (auto simp: sens_var_check_def Let_def split: sum.splits prod.splits)

lemma sens_continuous_records_incremental:
  "sens_continuous_records env self col groupby inc = Inr a \<Longrightarrow> incremental_val a = Some inc"
  by (auto simp: sens_continuous_records_def split: sum.splits)

text \<open>
  Claim C2. In sensitivity mode on a continuous column, when the driver yields its
  records: the shift \<open>inc\<close> is the standard deviation of the column over the whole
  model-input table times \<open>std_num\<close>; the perturbed table is the model-input table
  with \<open>inc\<close> added to every row of that one column and every other column as it
  was; the model predicts once on the perturbed table (without the dependent variable
  and the original predictions), one prediction per row; the delta written for a row
  is its new prediction minus its original prediction; and the incremental value
  handed to the JSON conversion is \<open>inc\<close>.
\<close>

theorem continuous_perturbation_uniform_shift:
  assumes col: "getitem (cat_df self) col = Inr c" and cont: "\<not> categorical c"
    and run: "sens_var_check env self col groupby = (self', Inr j)"
  shows "\<exists>s sd inc shifted perturbed preds pys deltas a.
      getitem (model_df self) col = Inr s
    \<and> series_std (cells s) = Inr sd
    \<and> cell_binop (*) sd (Num (real_of_int (std_num self))) = Inr inc
    \<and> length shifted = length (cells s)
    \<and> (\<forall>i<length (cells s). cell_binop (+) (cells s ! i) inc = Inr (shifted ! i))
    \<and> getitem perturbed col = Inr (s\<lparr>cells := shifted\<rparr>)
    \<and> (\<forall>name. name \<noteq> col \<longrightarrow> getitem perturbed name = getitem (model_df self) name)
    \<and> columns perturbed = columns (model_df self)
    \<and> modelobj self (drop_cols [ydepend self, ''predictedYSmooth''] perturbed) = Inr preds
    \<and> length preds = nrows perturbed
    \<and> getitem (model_df self) ''predictedYSmooth'' = Inr pys
    \<and> getitem (cat_df self') ''diff'' = Inr (float_series deltas)
    \<and> length deltas = nrows (cat_df self)
    \<and> (\<forall>i. i < nrows (cat_df self) \<and> i < length preds \<and> i < length (cells pys) \<longrightarrow>
           cell_binop (-) (preds ! i) (cells pys ! i) = Inr (deltas ! i))
    \<and> to_json env a = Inr j
    \<and> incremental_val a = Some inc"
proof -
  from sens_var_check_continuous_Inr [OF col cont run] obtain copydf' inc d a where
    p: "perturb_continuous (model_df self) col (std_num self) = Inr (copydf', inc)"
    and r: "rescore (modelobj self) (ydepend self) copydf' = Inr d"
    and s': "self' = assign_diff self d"
    and rec: "sens_continuous_records env self' col groupby inc = Inr a"
    and js: "to_json env a = Inr j"
    by blast
  from perturb_continuous_Inr [OF p] obtain s sd shifted where
    s: "getitem (model_df self) col = Inr s" and sd: "series_std (cells s) = Inr sd"
    and inc: "cell_binop (*) sd (Num (real_of_int (std_num self))) = Inr inc"
    and sh: "mapM (\<lambda>c. cell_binop (+) c inc) (cells s) = Inr shifted"
    and cp: "copydf' = setitem (model_df self) col (s\<lparr>cells := shifted\<rparr>)"
    by blast
  from rescore_Inr [OF r] obtain preds pys where
    pr: "modelobj self (drop_cols [ydepend self, ''predictedYSmooth''] copydf') = Inr preds"
    and lp: "length preds = nrows copydf'"
    and py: "getitem copydf' ''predictedYSmooth'' = Inr pys"
    and dl: "mapM (\<lambda>(a, b). cell_binop (-) a b) (zip preds (cells pys)) = Inr d"
    by blast
  from rec have "distinct (col_indices col groupby)" by (rule sens_continuous_records_distinct)
  then have ne: "col \<noteq> ''predictedYSmooth''" by (auto simp: col_indices_def)
  have len_sh: "length shifted = length (cells s)" using sh by (rule mapM_length)
  have at_sh: "\<forall>i<length (cells s). cell_binop (+) (cells s ! i) inc = Inr (shifted ! i)"
    using mapM_nth [OF sh] by simp
  have g1: "getitem copydf' col = Inr (s\<lparr>cells := shifted\<rparr>)" by (simp add: cp getitem_setitem)
  have g2: "\<forall>name. name \<noteq> col \<longrightarrow> getitem copydf' name = getitem (model_df self) name"
    by (simp add: cp getitem_setitem)
  have "col \<in> set (columns (model_df self))"
    using s by (force simp: getitem_def columns_def split: option.splits dest: map_of_SomeD)
  then have g3: "columns copydf' = columns (model_df self)" by (simp add: cp columns_setitem)
  from py g2 ne have py': "getitem (model_df self) ''predictedYSmooth'' = Inr pys" by simp
  let ?deltas = "align (nrows (cat_df self)) d"
  have df: "getitem (cat_df self') ''diff'' = Inr (float_series ?deltas)"
    by (simp add: s' getitem_assign_diff)
  have ld: "length d = length (zip preds (cells pys))" using dl by (rule mapM_length)
  have at_d: "cell_binop (-) (preds ! i) (cells pys ! i) = Inr (?deltas ! i)"
    if "i < nrows (cat_df self) \<and> i < length preds \<and> i < length (cells pys)" for i
  proof -
    from that have i: "i < length (zip preds (cells pys))" by simp
    from mapM_nth [OF dl i] that have "cell_binop (-) (preds ! i) (cells pys ! i) = Inr (d ! i)"
      by simp
    moreover from that i ld have "?deltas ! i = d ! i" by (simp add: align_nth)
    ultimately show ?thesis by simp
  qed
  from s sd inc len_sh at_sh g1 g2 g3 pr lp py' df at_d js
    sens_continuous_records_incremental [OF rec] length_align [of "nrows (cat_df self)" d]
  show ?thesis by blast
qed

theorem continuous_perturbation_uniform_shift_witness:
  "series_std [Num 1, Num 3, Num 5] = Inr (Num 2)
   \<and> perturb_continuous demo_model_df ''x'' 1
       = Inr (setitem demo_model_df ''x'' (float_series [Num 3, Num 5, Num 7]), Num 2)
   \<and> getitem (cat_df (fst (sens_var_check demo_env (demo_wb WhiteBoxSensitivity) ''x'' ''Grp''))) ''diff''
       = Inr (float_series [Num 2, Num 2, Num 2])
   \<and> (\<exists>a. to_json demo_env a = snd (sens_var_check demo_env (demo_wb WhiteBoxSensitivity) ''x'' ''Grp'')
          \<and> incremental_val a = Some (Num 2))"
proof -
  let ?s = "demo_wb WhiteBoxSensitivity"
  let ?r = "sens_var_check demo_env ?s ''x'' ''Grp''"
  let ?j = "\<lparr>table = [[(''X'', Num 1), (''Grp'', Str ''u''), (''predictedYSmooth'', Num 2)],
                 [(''X'', Num 3), (''Grp'', Str ''v''), (''predictedYSmooth'', Num 2)],
                 [(''X'', Num 5), (''Grp'', Str ''v''), (''predictedYSmooth'', Num 2)]],
        jvartype = Continuous, html_type = ''sensitivity'', incremental_val = Some (Num 2)\<rparr>"
  have col: "getitem (cat_df ?s) ''x'' = Inr (float_series [Num 1, Num 3, Num 5])"
    by (simp add: demo_wb_def demo_cat_df_def getitem_def)
  have cont: "\<not> categorical (float_series [Num 1, Num 3, Num 5])" by (simp add: float_series_def)
  have r: "snd ?r = Inr ?j" by (simp add: frame_eval driver_eval demo_eval Let_def)
  then have run: "?r = (fst ?r, Inr ?j)" by (metis prod.collapse)
  have m: "getitem (model_df ?s) ''x'' = Inr (float_series [Num 1, Num 3, Num 5])"
    by (simp add: demo_wb_def demo_model_df_def getitem_def)
  have sd: "series_std [Num 1, Num 3, Num 5] = Inr (Num 2)"
    by (simp add: series_std_def has_label_def numbers_def List.map_filter_simps Let_def)
  have pc: "perturb_continuous demo_model_df ''x'' 1
       = Inr (setitem demo_model_df ''x'' (float_series [Num 3, Num 5, Num 7]), Num 2)"
    by (simp add: perturb_continuous_def frame_eval demo_model_df_def Let_def)
  have d: "getitem (cat_df (fst ?r)) ''diff'' = Inr (float_series [Num 2, Num 2, Num 2])"
    by (simp add: frame_eval driver_eval demo_eval Let_def)
  from continuous_perturbation_uniform_shift [OF col cont run] obtain sd' inc a where
    "series_std (cells (float_series [Num 1, Num 3, Num 5])) = Inr sd'"
    "cell_binop (*) sd' (Num (real_of_int (std_num ?s))) = Inr inc"
    "to_json demo_env a = Inr ?j" "incremental_val a = Some inc"
    unfolding m by auto
  with sd have "to_json demo_env a = Inr ?j \<and> incremental_val a = Some (Num 2)"
    by (auto simp: float_series_def demo_wb_def)
  with r have "\<exists>a. to_json demo_env a = snd ?r \<and> incremental_val a = Some (Num 2)" by auto
  with sd pc d show ?thesis by simp
qed

section \<open>The categorical perturbation and its buckets\<close>

lemma getitem_take_rows:
  "getitem (take_rows idx df) name =
     (case getitem df name of Inl e \<Rightarrow> Inl e
      | Inr s \<Rightarrow> Inr (s\<lparr>cells := map (\<lambda>i. cells s ! i) idx\<rparr>))"
proof (induction df)
  case Nil
  then show ?case by (simp add: getitem_def take_rows_def)
next
  case (Cons a df)
  then show ?case by (cases a) (auto simp: getitem_def take_rows_def split: option.splits)
qed

lemma getitem_rows_where:
  "getitem df name = Inr s \<Longrightarrow>
     getitem (rows_where p df) name = Inr (s\<lparr>cells := map (\<lambda>i. cells s ! i) (filter p [0..<nrows df])\<rparr>)"
  by (simp add: rows_where_def getitem_take_rows)

lemma getitem_select_cols:
  assumes "select_cols names df = Inr sub" "name \<in> set names"
  shows "getitem sub name = getitem df name"
proof -
  let ?f = "\<lambda>n. case getitem df n of Inl e \<Rightarrow> Inl e | Inr s \<Rightarrow> Inr (n, s)"
  from assms(1) have m: "mapM ?f names = Inr sub" and d: "distinct names"
    by (auto simp: select_cols_def split: sum.splits if_splits)
  have "map_of sub name = map_of df name" if "mapM ?f ns = Inr sub" "name \<in> set ns" for ns
    using that
  proof (induction ns arbitrary: sub)
    case Nil
    then show ?case by simp
  next
    case (Cons n ns)
    from Cons.prems(1) obtain s rest where s: "getitem df n = Inr s"
      and rest: "mapM ?f ns = Inr rest" and sub: "sub = (n, s) # rest"
      by (auto split: sum.splits)
    show ?case
    proof (cases "name = n")
      case True
      with s sub show ?thesis by (auto simp: getitem_def split: option.splits)
    next
      case False
      with Cons.prems(2) have "name \<in> set ns" by simp
      from Cons.IH [OF rest this] False sub show ?thesis by simp
    qed
  qed
  from this [OF m assms(2)] show ?thesis by (simp add: getitem_def)
qed

lemma sorted_keys_subset: "set (sorted_keys cs) \<subseteq> set cs"
proof
  fix k assume "k \<in> set (sorted_keys cs)"
  then consider x where "k = Num x" "x \<in> set (numbers cs)" | l where "k = Str l" "l \<in> set (labels cs)"
    by (auto simp: sorted_keys_def)
  then show "k \<in> set cs"
  proof cases
    case 1
    then obtain c where "c \<in> set cs" "num_of c = Some x"
      by (auto simp: numbers_def List.map_filter_def)
    with 1 show ?thesis by (cases c) auto
  next
    case 2
    then obtain c where "c \<in> set cs" "str_of c = Some l"
      by (auto simp: labels_def List.map_filter_def)
    with 2 show ?thesis by (cases c) auto
  qed
qed

lemma groupby2_frames_cells:
  assumes "groupby2_frames sub key1 key2 = Inr gs" "((v1, v2), g) \<in> set gs"
  shows "\<exists>k1 k2 c1 c2. getitem sub key1 = Inr k1 \<and> getitem sub key2 = Inr k2
     \<and> v1 \<in> set (cells k1) \<and> v2 \<in> set (cells k2) \<and> 0 < nrows g
     \<and> g = rows_where (\<lambda>i. cells k1 ! i = v1 \<and> cells k2 ! i = v2) sub
     \<and> getitem g key1 = Inr c1 \<and> getitem g key2 = Inr c2
     \<and> (\<forall>x\<in>set (cells c1). x = v1) \<and> (\<forall>x\<in>set (cells c2). x = v2)"
proof -
  from assms(1) obtain k1 k2 where k1: "getitem sub key1 = Inr k1" and k2: "getitem sub key2 = Inr k2"
    by (auto simp: groupby2_frames_def split: sum.splits)
  let ?P = "\<lambda>i. cells k1 ! i = v1 \<and> cells k2 ! i = v2"
  from assms k1 k2 have v: "v1 \<in> set (sorted_keys (cells k1))" "v2 \<in> set (sorted_keys (cells k2))"
    and g: "g = rows_where ?P sub" and n: "0 < nrows g"
    by (auto simp: groupby2_frames_def)
  from v sorted_keys_subset have v': "v1 \<in> set (cells k1)" "v2 \<in> set (cells k2)" by auto
  have c1: "getitem g key1 = Inr (k1\<lparr>cells := map (\<lambda>i. cells k1 ! i) (filter ?P [0..<nrows sub])\<rparr>)"
    unfolding g using k1 by (rule getitem_rows_where)
  have c2: "getitem g key2 = Inr (k2\<lparr>cells := map (\<lambda>i. cells k2 ! i) (filter ?P [0..<nrows sub])\<rparr>)"
    unfolding g using k2 by (rule getitem_rows_where)
  have a1: "\<forall>x\<in>set (cells (k1\<lparr>cells := map (\<lambda>i. cells k1 ! i) (filter ?P [0..<nrows sub])\<rparr>)). x = v1"
    by auto
  have a2: "\<forall>x\<in>set (cells (k2\<lparr>cells := map (\<lambda>i. cells k2 ! i) (filter ?P [0..<nrows sub])\<rparr>)). x = v2"
    by auto
  from k1 k2 v' n g c1 c2 a1 a2 show ?thesis by blast
qed

lemma sens_var_check_categorical_Inr:
  assumes "getitem (cat_df self) col = Inr c" "categorical c"
    and "sens_var_check env self col groupby = (self', Inr j)"
  shows "\<exists>copydf' mode_val d a. perturb_categorical env (model_df self) col c = Inr (copydf', mode_val)
     \<and> rescore (modelobj self) (ydepend self) copydf' = Inr d
     \<and> self' = assign_diff self d
     \<and> sens_categorical_records self' col groupby mode_val = Inr a
     \<and> to_json env a = Inr j"
  using assms
  by (auto simp: sens_var_check_def Let_def split: sum.splits prod.splits)

lemma perturb_categorical_mode:
  "perturb_categorical env copydf col c = Inr (copydf', mode_val) \<Longrightarrow>
     \<exists>rest. series_mode (cells c) = mode_val # rest"
  by (auto simp: perturb_categorical_def Let_def split: list.splits cell.splits if_splits)

text \<open>
  Claim C4. In sensitivity mode on a categorical column, when the driver yields its
  records: the incremental value handed to the JSON conversion is the mode of the
  column in \<open>cat_df\<close>; the records are the reductions of the buckets obtained from
  the rows of the table whose value differs from the mode, grouped by group variable
  and category level; every bucket is not empty, its rows all have the bucket's
  category level and the bucket's group value, and that level is not the mode: no row
  whose value is the mode is in any bucket.
\<close>

theorem categorical_mode_rows_excluded:
  assumes col: "getitem (cat_df self) col = Inr c" and cat: "categorical c"
    and run: "sens_var_check env self col groupby = (self', Inr j)"
  shows "\<exists>mode_val rest sub gs rs a.
      series_mode (cells c) = mode_val # rest
    \<and> select_cols (col_indices col groupby)
         (rows_where (\<lambda>i. cells c ! i \<noteq> mode_val) (cat_df self')) = Inr sub
    \<and> groupby2_frames sub groupby col = Inr gs
    \<and> (\<forall>((gv, cv), g)\<in>set gs. cv \<noteq> mode_val \<and> 0 < nrows g
          \<and> (\<exists>cs ks. getitem g col = Inr cs \<and> getitem g groupby = Inr ks
                \<and> (\<forall>x\<in>set (cells cs). x = cv \<and> x \<noteq> mode_val) \<and> (\<forall>k\<in>set (cells ks). k = gv)))
    \<and> apply_groups (\<lambda>g. sens_transform_function (aggregate_func self) g groupby col Categorical) gs
         = Inr rs
    \<and> table a = replace_nan (set_column ''groupByVarName'' (Str groupby)
                  (rename_columns (featuredict self)
                    (rename_columns [(groupby, ''groupByValue'')] rs)))
    \<and> to_json env a = Inr j
    \<and> incremental_val a = Some mode_val"
proof -
  from sens_var_check_categorical_Inr [OF col cat run] obtain copydf' mode_val d a where
    p: "perturb_categorical env (model_df self) col c = Inr (copydf', mode_val)"
    and s': "self' = assign_diff self d"
    and rec: "sens_categorical_records self' col groupby mode_val = Inr a"
    and js: "to_json env a = Inr j"
    by blast
  from perturb_categorical_mode [OF p] obtain rest where m: "series_mode (cells c) = mode_val # rest" ..
  from rec have "distinct (col_indices col groupby)" by (rule sens_categorical_records_distinct)
  then have ne: "col \<noteq> ''diff''" by (auto simp: col_indices_def)
  with col have col': "getitem (cat_df self') col = Inr c" by (simp add: s' getitem_assign_diff)
  let ?masked = "rows_where (\<lambda>i. cells c ! i \<noteq> mode_val) (cat_df self')"
  from rec col' obtain sub gs rs where
    sub: "select_cols (col_indices col groupby) ?masked = Inr sub"
    and gs: "groupby2_frames sub groupby col = Inr gs"
    and rs: "apply_groups (\<lambda>g. sens_transform_function (aggregate_func self') g groupby col Categorical) gs
         = Inr rs"
    and tab: "table a = replace_nan (set_column ''groupByVarName'' (Str groupby)
                  (rename_columns (featuredict self')
                    (rename_columns [(groupby, ''groupByValue'')] rs)))"
    and iv: "incremental_val a = Some mode_val"
    by (auto simp: sens_categorical_records_def sens_categorical_groups_def split: sum.splits)
  have fields: "aggregate_func self' = aggregate_func self" "featuredict self' = featuredict self"
    by (simp_all add: s' assign_diff_def)
  have "col \<in> set (col_indices col groupby)" by (simp add: col_indices_def)
  from getitem_select_cols [OF sub this] getitem_rows_where [OF col']
  have subcol: "getitem sub col = Inr (c\<lparr>cells := map (\<lambda>i. cells c ! i)
        (filter (\<lambda>i. cells c ! i \<noteq> mode_val) [0..<nrows (cat_df self')])\<rparr>)"
    by simp
  have buckets: "cv \<noteq> mode_val \<and> 0 < nrows g
          \<and> (\<exists>cs ks. getitem g col = Inr cs \<and> getitem g groupby = Inr ks
                \<and> (\<forall>x\<in>set (cells cs). x = cv \<and> x \<noteq> mode_val) \<and> (\<forall>k\<in>set (cells ks). k = gv))"
    if "((gv, cv), g) \<in> set gs" for gv cv g
  proof -
    from groupby2_frames_cells [OF gs that] obtain k2 c1 c2 where
      k2: "getitem sub col = Inr k2" and cv: "cv \<in> set (cells k2)" and n: "0 < nrows g"
      and c1: "getitem g groupby = Inr c1" and c2: "getitem g col = Inr c2"
      and a1: "\<forall>x\<in>set (cells c1). x = gv" and a2: "\<forall>x\<in>set (cells c2). x = cv"
      by blast
    from k2 subcol cv have "cv \<noteq> mode_val" by auto
    with n c1 c2 a1 a2 show ?thesis by auto
  qed
  from m sub gs buckets rs tab js iv fields show ?thesis by fastforce
qed

theorem categorical_mode_rows_excluded_witness:
  "series_mode [Str ''a'', Str ''a'', Str ''b''] = [Str ''a'']
   \<and> snd (sens_var_check demo_env (demo_wb WhiteBoxSensitivity) ''Type'' ''Grp'')
     = Inr \<lparr>table = [[(''Type'', Str ''b''), (''groupByValue'', Str ''v''),
                       (''predictedYSmooth'', Num (- 1)), (''groupByVarName'', Str ''Grp'')]],
             jvartype = Categorical, html_type = ''sensitivity'',
             incremental_val = Some (Str ''a'')\<rparr>
   \<and> (\<exists>a. to_json demo_env a = snd (sens_var_check demo_env (demo_wb WhiteBoxSensitivity) ''Type'' ''Grp'')
          \<and> incremental_val a = Some (Str ''a''))"
proof -
  let ?s = "demo_wb WhiteBoxSensitivity"
  let ?r = "sens_var_check demo_env ?s ''Type'' ''Grp''"
  let ?c = "\<lparr>categorical = True, cells = [Str ''a'', Str ''a'', Str ''b'']\<rparr>"
  let ?j = "\<lparr>table = [[(''Type'', Str ''b''), (''groupByValue'', Str ''v''),
                       (''predictedYSmooth'', Num (- 1)), (''groupByVarName'', Str ''Grp'')]],
             jvartype = Categorical, html_type = ''sensitivity'',
             incremental_val = Some (Str ''a'')\<rparr>"
  have col: "getitem (cat_df ?s) ''Type'' = Inr ?c"
    by (simp add: demo_wb_def demo_cat_df_def getitem_def)
  have cat: "categorical ?c" by simp
  have r: "snd ?r = Inr ?j" by (simp add: frame_eval driver_eval demo_eval Let_def)
  then have run: "?r = (fst ?r, Inr ?j)" by (metis prod.collapse)
  have m: "series_mode [Str ''a'', Str ''a'', Str ''b''] = [Str ''a'']"
    by (simp add: frame_eval)
  from categorical_mode_rows_excluded [OF col cat run] obtain mode_val rest a where
    "series_mode (cells ?c) = mode_val # rest" "to_json demo_env a = Inr ?j"
    "incremental_val a = Some mode_val"
    by blast
  with m have "to_json demo_env a = Inr ?j \<and> incremental_val a = Some (Str ''a'')" by simp
  with r have "\<exists>a. to_json demo_env a = snd ?r \<and> incremental_val a = Some (Str ''a'')" by auto
  with m r show ?thesis by simp
qed

section \<open>The column \<open>diff\<close> that the sensitivity driver writes\<close>

lemma align_nth_pad: "i < n \<Longrightarrow> length d \<le> i \<Longrightarrow> align n d ! i = NaN"
  by (simp add: align_def nth_append)

lemma sens_var_check_writes:
  assumes "sens_var_check env self col groupby = (self', r)"
  shows "(self' = self \<and> (\<forall>j. r \<noteq> Inr j))
    \<or> (\<exists>c perturbed inc d. getitem (cat_df self) col = Inr c
          \<and> (if categorical c then perturb_categorical env (model_df self) col c
              else perturb_continuous (model_df self) col (std_num self)) = Inr (perturbed, inc)
          \<and> rescore (modelobj self) (ydepend self) perturbed = Inr d
          \<and> self' = assign_diff self d)"
  using assms
  by (auto simp: sens_var_check_def Let_def split: sum.splits prod.splits if_splits)

text \<open>
  Claim C3, as the code has it. The driver perturbs a private copy of the model-input
  table, which stays as it was, and so does every field of the instance but
  \<open>cat_df\<close>; of the live table \<open>cat_df\<close> every column other than \<open>diff\<close> stays
  as it was and no column is removed. Whenever the call changes the instance or
  yields records, the column \<open>diff\<close> of the live table is the per-row perturbation
  delta: for every row, the model's prediction on the perturbed copy (without the
  dependent variable and the original predictions) minus \<open>predictedYSmooth\<close> of the
  copy, and the missing value for a row without a prediction.
\<close>

theorem sensitivity_driver_frame:
  assumes "sens_var_check env self col groupby = (self', r)"
  shows "model_df self' = model_df self
    \<and> self' = self\<lparr>cat_df := cat_df self'\<rparr>
    \<and> (\<forall>name. name \<noteq> ''diff'' \<longrightarrow> getitem (cat_df self') name = getitem (cat_df self) name)
    \<and> (columns (cat_df self') = columns (cat_df self)
        \<or> columns (cat_df self') = columns (cat_df self) @ [''diff''])
    \<and> (self' \<noteq> self \<or> (\<exists>j. r = Inr j) \<longrightarrow>
          (\<exists>c perturbed inc preds pys deltas.
              getitem (cat_df self) col = Inr c
            \<and> (if categorical c then perturb_categorical env (model_df self) col c
                else perturb_continuous (model_df self) col (std_num self)) = Inr (perturbed, inc)
            \<and> modelobj self (drop_cols [ydepend self, ''predictedYSmooth''] perturbed) = Inr preds
            \<and> length preds = nrows perturbed
            \<and> getitem perturbed ''predictedYSmooth'' = Inr pys
            \<and> getitem (cat_df self') ''diff'' = Inr (float_series deltas)
            \<and> length deltas = nrows (cat_df self)
            \<and> (\<forall>i<nrows (cat_df self).
                  if i < length preds \<and> i < length (cells pys)
                  then cell_binop (-) (preds ! i) (cells pys ! i) = Inr (deltas ! i)
                  else deltas ! i = NaN)))"
proof -
  have frame: "model_df self' = model_df self
    \<and> self' = self\<lparr>cat_df := cat_df self'\<rparr>
    \<and> (\<forall>name. name \<noteq> ''diff'' \<longrightarrow> getitem (cat_df self') name = getitem (cat_df self) name)
    \<and> (columns (cat_df self') = columns (cat_df self)
        \<or> columns (cat_df self') = columns (cat_df self) @ [''diff''])"
  proof -
    from sens_var_check_cases [OF assms] show ?thesis
    proof
      assume "self' = self"
      then show ?thesis by simp
    next
      assume "\<exists>d. self' = assign_diff self d"
      then obtain d where d: "self' = assign_diff self d" ..
      have 1: "model_df self' = model_df self" by (simp add: d assign_diff_def)
      have 2: "self' = self\<lparr>cat_df := cat_df self'\<rparr>" by (simp add: d assign_diff_def)
      have 3: "\<forall>name. name \<noteq> ''diff'' \<longrightarrow> getitem (cat_df self') name = getitem (cat_df self) name"
        by (simp add: d getitem_assign_diff)
      have 4: "columns (cat_df self') = columns (cat_df self)
          \<or> columns (cat_df self') = columns (cat_df self) @ [''diff'']"
        unfolding d by (rule columns_assign_diff)
      from 1 2 3 4 show ?thesis by blast
    qed
  qed
  have delta: "\<exists>c perturbed inc preds pys deltas.
              getitem (cat_df self) col = Inr c
            \<and> (if categorical c then perturb_categorical env (model_df self) col c
                else perturb_continuous (model_df self) col (std_num self)) = Inr (perturbed, inc)
            \<and> modelobj self (drop_cols [ydepend self, ''predictedYSmooth''] perturbed) = Inr preds
            \<and> length preds = nrows perturbed
            \<and> getitem perturbed ''predictedYSmooth'' = Inr pys
            \<and> getitem (cat_df self') ''diff'' = Inr (float_series deltas)
            \<and> length deltas = nrows (cat_df self)
            \<and> (\<forall>i<nrows (cat_df self).
                  if i < length preds \<and> i < length (cells pys)
                  then cell_binop (-) (preds ! i) (cells pys ! i) = Inr (deltas ! i)
                  else deltas ! i = NaN)"
    if w: "self' \<noteq> self \<or> (\<exists>j. r = Inr j)"
  proof -
    from sens_var_check_writes [OF assms] w obtain c perturbed inc d where
      c: "getitem (cat_df self) col = Inr c"
      and p: "(if categorical c then perturb_categorical env (model_df self) col c
              else perturb_continuous (model_df self) col (std_num self)) = Inr (perturbed, inc)"
      and r: "rescore (modelobj self) (ydepend self) perturbed = Inr d"
      and s': "self' = assign_diff self d"
      by blast
    from rescore_Inr [OF r] obtain preds pys where
      pr: "modelobj self (drop_cols [ydepend self, ''predictedYSmooth''] perturbed) = Inr preds"
      and lp: "length preds = nrows perturbed"
      and py: "getitem perturbed ''predictedYSmooth'' = Inr pys"
      and dl: "mapM (\<lambda>(a, b). cell_binop (-) a b) (zip preds (cells pys)) = Inr d"
      by blast
    let ?n = "nrows (cat_df self)"
    let ?deltas = "align ?n d"
    have df: "getitem (cat_df self') ''diff'' = Inr (float_series ?deltas)"
      by (simp add: s' getitem_assign_diff)
    have ld: "length d = length (zip preds (cells pys))" using dl by (rule mapM_length)
    have at: "if i < length preds \<and> i < length (cells pys)
                  then cell_binop (-) (preds ! i) (cells pys ! i) = Inr (?deltas ! i)
                  else ?deltas ! i = NaN" if i: "i < ?n" for i
    proof (cases "i < length preds \<and> i < length (cells pys)")
      case True
      then have iz: "i < length (zip preds (cells pys))" by simp
      from mapM_nth [OF dl iz] True have "cell_binop (-) (preds ! i) (cells pys ! i) = Inr (d ! i)"
        by simp
      moreover from i iz ld have "?deltas ! i = d ! i" by (simp add: align_nth)
      ultimately show ?thesis using True by simp
    next
      case False
      then have "length d \<le> i" using ld by auto
      with i have "?deltas ! i = NaN" by (rule align_nth_pad)
      with False show ?thesis by auto
    qed
    from c p pr lp py df at length_align [of ?n d] show ?thesis by blast
  qed
  from frame delta show ?thesis by blast
qed

theorem sensitivity_driver_frame_witness:
  "model_df (fst (sens_var_check demo_env (demo_wb WhiteBoxSensitivity) ''Type'' ''Grp'')) = demo_model_df
   \<and> getitem (cat_df (fst (sens_var_check demo_env (demo_wb WhiteBoxSensitivity) ''Type'' ''Grp''))) ''x''
       = Inr (float_series [Num 1, Num 3, Num 5])
   \<and> perturb_categorical demo_env demo_model_df ''Type''
         \<lparr>categorical = True, cells = [Str ''a'', Str ''a'', Str ''b'']\<rparr>
       = Inr ([(''x'', float_series [Num 1, Num 3, Num 5]),
               (''Type_a'', float_series [Num 1, Num 1, Num 1]),
               (''Type_b'', float_series [Num 0, Num 0, Num 0]),
               (''y'', float_series [Num 1, Num 2, Num 3]),
               (''predictedYSmooth'', float_series [Num 1, Num 3, Num 6])], Str ''a'')
   \<and> demo_model [(''x'', float_series [Num 1, Num 3, Num 5]),
               (''Type_a'', float_series [Num 1, Num 1, Num 1]),
               (''Type_b'', float_series [Num 0, Num 0, Num 0])] = Inr [Num 1, Num 3, Num 5]
   \<and> (\<exists>deltas. getitem (cat_df (fst (sens_var_check demo_env (demo_wb WhiteBoxSensitivity)
                                           ''Type'' ''Grp''))) ''diff''
         = Inr (float_series deltas) \<and> deltas = [Num 0, Num 0, Num (- 1)])"
proof -
  let ?s = "demo_wb WhiteBoxSensitivity"
  let ?r = "sens_var_check demo_env ?s ''Type'' ''Grp''"
  let ?c = "\<lparr>categorical = True, cells = [Str ''a'', Str ''a'', Str ''b'']\<rparr>"
  let ?P = "[(''x'', float_series [Num 1, Num 3, Num 5]),
               (''Type_a'', float_series [Num 1, Num 1, Num 1]),
               (''Type_b'', float_series [Num 0, Num 0, Num 0]),
               (''y'', float_series [Num 1, Num 2, Num 3]),
               (''predictedYSmooth'', float_series [Num 1, Num 3, Num 6])]"
  have run: "?r = (fst ?r, snd ?r)" by simp
  have ok: "\<exists>j. snd ?r = Inr j"
    by (simp add: frame_eval driver_eval demo_eval Let_def)
  have m: "model_df ?s = demo_model_df" by (simp add: demo_wb_def)
  have x: "getitem (cat_df ?s) ''x'' = Inr (float_series [Num 1, Num 3, Num 5])"
    by (simp add: demo_wb_def demo_cat_df_def getitem_def)
  have c: "getitem (cat_df ?s) ''Type'' = Inr ?c"
    by (simp add: demo_wb_def demo_cat_df_def getitem_def)
  have p: "perturb_categorical demo_env demo_model_df ''Type'' ?c = Inr (?P, Str ''a'')"
    by (simp add: perturb_categorical_def frame_eval demo_env_def demo_model_df_def Let_def)
  have pr: "demo_model [(''x'', float_series [Num 1, Num 3, Num 5]),
               (''Type_a'', float_series [Num 1, Num 1, Num 1]),
               (''Type_b'', float_series [Num 0, Num 0, Num 0])] = Inr [Num 1, Num 3, Num 5]"
    by (simp add: demo_model_def frame_eval)
  have d: "getitem (cat_df (fst ?r)) ''diff'' = Inr (float_series [Num 0, Num 0, Num (- 1)])"
    by (simp add: frame_eval driver_eval demo_eval Let_def)
  from sensitivity_driver_frame [OF run] ok obtain deltas where
    f: "model_df (fst ?r) = model_df ?s"
      "getitem (cat_df (fst ?r)) ''x'' = getitem (cat_df ?s) ''x''"
    and dd: "getitem (cat_df (fst ?r)) ''diff'' = Inr (float_series deltas)"
    by auto
  from dd d have "deltas = [Num 0, Num 0, Num (- 1)]" by (simp add: float_series_def)
  with dd have e: "\<exists>deltas. getitem (cat_df (fst ?r)) ''diff'' = Inr (float_series deltas)
      \<and> deltas = [Num 0, Num 0, Num (- 1)]" by blast
  from f m x p pr e show ?thesis by simp
qed

section \<open>Missing aggregates and the incremental value in the output of the drivers\<close>









end
